theory Spec2Isabelle
  imports Main "HOL-Library.Multiset"
begin

section \<open>Values of a request body\<close>

text \<open>
  The routes of \<^verbatim>\<open>src/server.js\<close> read the JSON body that \<^verbatim>\<open>express.json()\<close> has parsed.
  A field is absent (\<^verbatim>\<open>undefined\<close>, modelled by \<open>None\<close>) or holds one of the values below.

  \<^item> \<open>JInt n\<close> is a number with an integral value, \<open>n\<close> being the integer the JSON literal
    denotes. The number itself is the double nearest to \<open>n\<close> (\<open>to_number\<close> below). Where a route
    compares the number (with 0, or with a stored 32-bit value) \<open>n\<close> decides the same way; where
    it prints the number, the rounding is applied first. A literal beyond the range of the
    doubles is read as \<^verbatim>\<open>Infinity\<close>, which is not integral.
  \<^item> \<open>JFrac t\<close> is a number that is not integral (a fraction, or \<^verbatim>\<open>Infinity\<close>). The routes only
    ever turn such a number into text, so it carries the text \<^verbatim>\<open>Number.prototype.toString\<close>
    gives for it.
  \<^item> \<open>JObj own t\<close> is an object. The routes never look inside one, and two facts about it reach
    them: \<open>own\<close> tells whether it has a property of its own named \<^verbatim>\<open>toString\<close> (in parsed JSON
    such a property is never a function, and it hides \<^verbatim>\<open>Object.prototype.toString\<close>); \<open>t\<close> is
    its \<^verbatim>\<open>JSON.stringify\<close> text, which the database driver sends for it.
  \<^item> A string is the list of the bytes of its UTF-8 encoding: this is how the body arrives and
    how the driver sends a text to the server. The character U+00A0, for one, is the two bytes
    \<^verbatim>\<open>C2 A0\<close>.
\<close>

datatype json =
    JNull
  | JBool bool
  | JInt int
  | JFrac string
  | JStr string
  | JArr "json list"
  | JObj bool string

subsection \<open>Decimal text\<close>

definition digit_char :: "nat \<Rightarrow> char" where
  "digit_char d = char_of (48 + d)"

fun dec_nat :: "nat \<Rightarrow> string" where
  "dec_nat n = (if n < 10 then [digit_char n] else dec_nat (n div 10) @ [digit_char (n mod 10)])"

declare dec_nat.simps [simp del]

text \<open>An integer in plain decimal, as the server prints a 64-bit key.\<close>

definition dec_int :: "int \<Rightarrow> string" where
  "dec_int n = (if n < 0 then CHR ''-'' # dec_nat (nat (- n)) else dec_nat (nat n))"

definition is_digit :: "char \<Rightarrow> bool" where
  "is_digit c = (48 \<le> (of_char c :: nat) \<and> (of_char c :: nat) \<le> 57)"

definition digits_value :: "string \<Rightarrow> nat" where
  "digits_value ds = foldl (\<lambda>acc c. 10 * acc + (of_char c - 48)) 0 ds"

definition take_sign :: "string \<Rightarrow> bool \<times> string" where
  "take_sign s = (case s of
       [] \<Rightarrow> (False, [])
     | c # r \<Rightarrow> if c = CHR ''-'' then (True, r) else if c = CHR ''+'' then (False, r) else (False, s))"

text \<open>What \<^verbatim>\<open>parseInt(_, 10)\<close> and PostgreSQL's integer input both read once the leading white
  space is gone: an optional sign, then the longest run of decimal digits. The result is the
  signed value and the unread rest, or \<open>None\<close> when there is no digit.\<close>

definition signed_digits :: "string \<Rightarrow> (int \<times> string) option" where
  "signed_digits s =
     (let (neg, u) = take_sign s;
          ds = takeWhile is_digit u
      in if ds = [] then None
         else Some ((if neg then - int (digits_value ds) else int (digits_value ds)),
                    dropWhile is_digit u))"

subsection \<open>Numbers\<close>

text \<open>A JavaScript number, as far as the routes meet one: an integral double with its exact
  value, \<^verbatim>\<open>NaN\<close>, or an infinity.\<close>

datatype number = NaN | Num int | PosInfinity | NegInfinity

text \<open>The number of binary digits of a positive integer.\<close>

function bit_length :: "int \<Rightarrow> nat" where
  "bit_length x = (if x \<le> 0 then 0 else Suc (bit_length (x div 2)))"
  by auto
termination by (relation "measure nat") auto

declare bit_length.simps [simp del]

text \<open>The double nearest to a non-negative integer: the integer itself when 53 binary digits
  hold it, else it is rounded to 53 significant binary digits, a tie going to the even one.
  \<open>None\<close> is the overflow beyond the largest double.\<close>

definition round_double :: "int \<Rightarrow> int option" where
  "round_double x =
     (if bit_length x \<le> 53 then Some x
      else (let e = 2 ^ (bit_length x - 53);
                q = x div e;
                r = x mod e;
                q' = (if e < 2 * r \<or> (2 * r = e \<and> odd q) then q + 1 else q)
            in if q' * e < 2 ^ 1024 then Some (q' * e) else None))"

text \<open>The Number value of an integer: of an integral JSON literal, or of the digits
  \<^verbatim>\<open>parseInt\<close> has read.\<close>

definition to_number :: "int \<Rightarrow> number" where
  "to_number n = (case round_double \<bar>n\<bar> of
       None \<Rightarrow> if n < 0 then NegInfinity else PosInfinity
     | Some d \<Rightarrow> Num (if n < 0 then - d else d))"

text \<open>\<^verbatim>\<open>Number.prototype.toString\<close> prints the fewest significant decimal digits that still
  round to the number, and of these the nearest. For an integral double \<open>x\<close> of \<open>2^53\<close> or more this
  is the multiple of the largest power of ten that rounds to \<open>x\<close>: the search starts at the
  power with as many zeros as \<open>x\<close> has digits and ends at \<open>x\<close> itself.\<close>

fun shortest_from :: "nat \<Rightarrow> int \<Rightarrow> int" where
  "shortest_from 0 x = x"
| "shortest_from (Suc j) x =
     (let p = 10 ^ Suc j;
          lo = (x div p) * p;
          hi = lo + p;
          ok_lo = (0 < lo \<and> round_double lo = Some x);
          ok_hi = (round_double hi = Some x)
      in if ok_lo \<and> ok_hi
           then (if x - lo < hi - x \<or> (x - lo = hi - x \<and> even (x div p)) then lo else hi)
         else if ok_lo then lo
         else if ok_hi then hi
         else shortest_from j x)"

definition js_shortest :: "int \<Rightarrow> int" where
  "js_shortest x = shortest_from (length (dec_nat (nat x))) x"

text \<open>The digits are printed in full below \<open>10^21\<close> and in exponent notation from there on
  (mantissa without trailing zeros).\<close>

definition exp_form :: "string \<Rightarrow> string" where
  "exp_form ds = (case ds of
       [] \<Rightarrow> []
     | d # rest \<Rightarrow>
         (let frac = rev (dropWhile (\<lambda>c. c = CHR ''0'') (rev rest))
          in d # (if frac = [] then [] else CHR ''.'' # frac) @ ''e+'' @ dec_nat (length rest)))"

fun number_string :: "number \<Rightarrow> string" where
  "number_string NaN = ''NaN''"
| "number_string PosInfinity = ''Infinity''"
| "number_string NegInfinity = ''-Infinity''"
| "number_string (Num d) =
     (let c = (if \<bar>d\<bar> < 2 ^ 53 then \<bar>d\<bar> else js_shortest \<bar>d\<bar>);
          ds = dec_nat (nat c)
      in (if d < 0 then ''-'' else []) @ (if c < 10 ^ 21 then ds else exp_form ds))"

text \<open>\<^verbatim>\<open>String(n)\<close> for the number of an integral literal.\<close>

definition js_number_string :: "int \<Rightarrow> string" where
  "js_number_string n = number_string (to_number n)"

subsection \<open>ECMAScript conversions\<close>

fun join_with :: "char \<Rightarrow> string list \<Rightarrow> string" where
  "join_with d [] = []"
| "join_with d [p] = p"
| "join_with d (p # q # ps) = p @ d # join_with d (q # ps)"

text \<open>\<^verbatim>\<open>String(v)\<close>, and the element texts of \<^verbatim>\<open>Array.prototype.join\<close>, where \<^verbatim>\<open>null\<close> gives
  the empty text. An array's own text is its \<^verbatim>\<open>join(",")\<close>. \<open>None\<close> is the \<^verbatim>\<open>TypeError\<close> that
  the conversion throws for an object without a callable \<^verbatim>\<open>toString\<close> and \<^verbatim>\<open>valueOf\<close> that
  give a primitive: an object with a \<^verbatim>\<open>toString\<close> property of its own.\<close>

fun js_to_string :: "json \<Rightarrow> string option"
  and js_elem_strings :: "json list \<Rightarrow> string list option" where
  "js_to_string JNull = Some ''null''"
| "js_to_string (JBool b) = Some (if b then ''true'' else ''false'')"
| "js_to_string (JInt n) = Some (js_number_string n)"
| "js_to_string (JFrac t) = Some t"
| "js_to_string (JStr s) = Some s"
| "js_to_string (JArr xs) = map_option (join_with CHR '','') (js_elem_strings xs)"
| "js_to_string (JObj own t) = (if own then None else Some ''[object Object]'')"
| "js_elem_strings [] = Some []"
| "js_elem_strings (JNull # xs) = map_option ((#) []) (js_elem_strings xs)"
| "js_elem_strings (x # xs) =
     (case js_to_string x of
        None \<Rightarrow> None
      | Some t \<Rightarrow> map_option ((#) t) (js_elem_strings xs))"

definition js_join :: "json list \<Rightarrow> string option" where
  "js_join xs = map_option (join_with CHR '','') (js_elem_strings xs)"

text \<open>Truthiness, as \<^verbatim>\<open>!v\<close> reads it: \<^verbatim>\<open>undefined\<close>, \<^verbatim>\<open>null\<close>, \<^verbatim>\<open>false\<close>, \<^verbatim>\<open>0\<close> and the
  empty string are falsy; everything else is truthy.\<close>

fun js_truthy :: "json option \<Rightarrow> bool" where
  "js_truthy None = False"
| "js_truthy (Some JNull) = False"
| "js_truthy (Some (JBool b)) = b"
| "js_truthy (Some (JInt n)) = (n \<noteq> 0)"
| "js_truthy (Some (JFrac t)) = True"
| "js_truthy (Some (JStr s)) = (s \<noteq> [])"
| "js_truthy (Some (JArr xs)) = True"
| "js_truthy (Some (JObj own t)) = True"

text \<open>The white space \<^verbatim>\<open>parseInt\<close> strips from the start of its text: tab, line feed, vertical
  tab, form feed, carriage return, space, and in UTF-8 the characters U+00A0, U+1680, U+2000 to
  U+200A, U+2028, U+2029, U+202F, U+205F, U+3000 and U+FEFF.\<close>

definition js_white_space :: "string list" where
  "js_white_space =
     [[CHR 0x09], [CHR 0x0A], [CHR 0x0B], [CHR 0x0C], [CHR 0x0D], [CHR 0x20],
      [CHR 0xC2, CHR 0xA0],
      [CHR 0xE1, CHR 0x9A, CHR 0x80],
      [CHR 0xE2, CHR 0x80, CHR 0x80], [CHR 0xE2, CHR 0x80, CHR 0x81],
      [CHR 0xE2, CHR 0x80, CHR 0x82], [CHR 0xE2, CHR 0x80, CHR 0x83],
      [CHR 0xE2, CHR 0x80, CHR 0x84], [CHR 0xE2, CHR 0x80, CHR 0x85],
      [CHR 0xE2, CHR 0x80, CHR 0x86], [CHR 0xE2, CHR 0x80, CHR 0x87],
      [CHR 0xE2, CHR 0x80, CHR 0x88], [CHR 0xE2, CHR 0x80, CHR 0x89],
      [CHR 0xE2, CHR 0x80, CHR 0x8A],
      [CHR 0xE2, CHR 0x80, CHR 0xA8], [CHR 0xE2, CHR 0x80, CHR 0xA9],
      [CHR 0xE2, CHR 0x80, CHR 0xAF],
      [CHR 0xE2, CHR 0x81, CHR 0x9F],
      [CHR 0xE3, CHR 0x80, CHR 0x80],
      [CHR 0xEF, CHR 0xBB, CHR 0xBF]]"

text \<open>The number of bytes of the white space character a text starts with, 0 when it starts
  with none.\<close>

definition white_length :: "string \<Rightarrow> nat" where
  "white_length s = (case s of
       [] \<Rightarrow> 0
     | c # cs \<Rightarrow> (case find (\<lambda>w. take (length w) s = w) js_white_space of
         None \<Rightarrow> 0
       | Some w \<Rightarrow> length w))"

function js_trim_start :: "string \<Rightarrow> string" where
  "js_trim_start s = (if white_length s = 0 then s else js_trim_start (drop (white_length s) s))"
  by auto
termination by (relation "measure length") (auto simp: white_length_def split: list.splits)

declare js_trim_start.simps [simp del]

text \<open>\<^verbatim>\<open>parseInt(v, 10)\<close>: the text of \<open>v\<close>, its leading white space stripped, is read as a
  signed run of digits, whose value becomes a number. \<open>None\<close> is the \<^verbatim>\<open>TypeError\<close> of the
  conversion to text.\<close>

definition js_parseInt :: "json \<Rightarrow> number option" where
  "js_parseInt v = (case js_to_string v of
       None \<Rightarrow> None
     | Some t \<Rightarrow> Some (case signed_digits (js_trim_start t) of
         None \<Rightarrow> NaN
       | Some (n, rest) \<Rightarrow> to_number n))"

section \<open>The database\<close>

subsection \<open>Parameters and casts\<close>

text \<open>The range of PostgreSQL's \<^verbatim>\<open>integer\<close>.\<close>

definition int4 :: "int \<Rightarrow> bool" where
  "int4 n = (- 2147483648 \<le> n \<and> n \<le> 2147483647)"

text \<open>The white space of C's \<^verbatim>\<open>isspace\<close>, which the server's integer input skips: space, tab,
  line feed, vertical tab, form feed, carriage return. No byte of a longer UTF-8 sequence
  counts.\<close>

definition isspace :: "char \<Rightarrow> bool" where
  "isspace c = (c \<in> set [CHR '' '', CHR 0x09, CHR 0x0A, CHR 0x0B, CHR 0x0C, CHR 0x0D])"

definition lead_int :: "string \<Rightarrow> (int \<times> string) option" where
  "lead_int s = signed_digits (dropWhile isspace s)"

text \<open>The input function of \<^verbatim>\<open>integer\<close> (the cast \<^verbatim>\<open>::int\<close> of a text): decimal digits with an
  optional sign, white space allowed around them, nothing else, and the value within range.
  \<open>None\<close> is the error the server raises. This is the decimal syntax every server version
  accepts.\<close>

definition pg_int4in :: "string \<Rightarrow> int option" where
  "pg_int4in s = (case lead_int s of
       None \<Rightarrow> None
     | Some (v, rest) \<Rightarrow> if list_all isspace rest \<and> int4 v then Some v else None)"

text \<open>A value of type \<^verbatim>\<open>text\<close>: the server refuses a text that holds the NUL character, and
  takes every other text a JavaScript string encodes to.\<close>

definition pg_textin :: "string \<Rightarrow> string option" where
  "pg_textin t = (if CHR 0x00 \<in> set t then None else Some t)"

text \<open>\<^verbatim>\<open>string_to_array(t, ',')\<close>: the empty text gives the empty array, any other text is cut at
  every comma.\<close>

fun split_on :: "char \<Rightarrow> string \<Rightarrow> string list" where
  "split_on d [] = [[]]"
| "split_on d (c # cs) =
     (if c = d then [] # split_on d cs
      else (case split_on d cs of [] \<Rightarrow> [[c]] | p # ps \<Rightarrow> (c # p) # ps))"

definition string_to_array :: "string \<Rightarrow> string list" where
  "string_to_array t = (if t = [] then [] else split_on CHR '','' t)"

text \<open>The driver's \<^verbatim>\<open>prepareValue\<close>: how a JavaScript value becomes the text of a query
  parameter. \<open>None\<close> is SQL \<^verbatim>\<open>NULL\<close>. An array becomes an array literal with every scalar
  element quoted and escaped; an object becomes its \<^verbatim>\<open>JSON.stringify\<close> text.\<close>

definition escapeElement :: "string \<Rightarrow> string" where
  "escapeElement t =
     CHR 0x22 # concat (map (\<lambda>c. if c = CHR 0x5C \<or> c = CHR 0x22 then [CHR 0x5C, c] else [c]) t)
       @ [CHR 0x22]"

fun arrayString :: "json list \<Rightarrow> string" and arrayItems :: "json list \<Rightarrow> string list" where
  "arrayString xs = ''{'' @ join_with CHR '','' (arrayItems xs) @ ''}''"
| "arrayItems [] = []"
| "arrayItems (JNull # xs) = ''NULL'' # arrayItems xs"
| "arrayItems (JArr ys # xs) = arrayString ys # arrayItems xs"
| "arrayItems (JBool b # xs) = escapeElement (if b then ''true'' else ''false'') # arrayItems xs"
| "arrayItems (JInt n # xs) = escapeElement (js_number_string n) # arrayItems xs"
| "arrayItems (JFrac t # xs) = escapeElement t # arrayItems xs"
| "arrayItems (JStr s # xs) = escapeElement s # arrayItems xs"
| "arrayItems (JObj own t # xs) = escapeElement t # arrayItems xs"

fun prepareValue :: "json \<Rightarrow> string option" where
  "prepareValue JNull = None"
| "prepareValue (JBool b) = Some (if b then ''true'' else ''false'')"
| "prepareValue (JInt n) = Some (js_number_string n)"
| "prepareValue (JFrac t) = Some t"
| "prepareValue (JStr s) = Some s"
| "prepareValue (JArr xs) = Some (arrayString xs)"
| "prepareValue (JObj own t) = Some t"

text \<open>The cast \<^verbatim>\<open>$1::int[]\<close> of an array parameter. The server's array input undoes the
  quoting of \<open>arrayString\<close>, so it reads every scalar element as the text \<open>prepareValue\<close> gave
  it and hands that text to the integer input; \<^verbatim>\<open>NULL\<close> stays \<^verbatim>\<open>NULL\<close>. Nested arrays must
  be rectangular, at most six levels deep; the elements are then taken in order. \<open>None\<close> is the
  error the server raises.\<close>

fun array_dims :: "json \<Rightarrow> nat list option" and elems_dims :: "json list \<Rightarrow> nat list option list" where
  "array_dims (JArr xs) =
     (case elems_dims xs of
        [] \<Rightarrow> Some [0]
      | None # ds \<Rightarrow> None
      | Some d # ds \<Rightarrow> if list_all (\<lambda>e. e = Some d) ds then Some (length xs # d) else None)"
| "array_dims JNull = Some []"
| "array_dims (JBool b) = Some []"
| "array_dims (JInt n) = Some []"
| "array_dims (JFrac t) = Some []"
| "array_dims (JStr s) = Some []"
| "array_dims (JObj own t) = Some []"
| "elems_dims [] = []"
| "elems_dims (x # xs) = array_dims x # elems_dims xs"

fun array_leaves :: "json list \<Rightarrow> json list" where
  "array_leaves [] = []"
| "array_leaves (JArr ys # xs) = array_leaves ys @ array_leaves xs"
| "array_leaves (x # xs) = x # array_leaves xs"

definition pg_int_elem :: "json \<Rightarrow> int option option" where
  "pg_int_elem x = (case prepareValue x of
       None \<Rightarrow> Some None
     | Some t \<Rightarrow> map_option Some (pg_int4in t))"

definition pg_int_array :: "json list \<Rightarrow> int option list option" where
  "pg_int_array xs = (case array_dims (JArr xs) of
       None \<Rightarrow> None
     | Some ds \<Rightarrow> if length ds > 6 then None else those (map pg_int_elem (array_leaves xs)))"

subsection \<open>Tables\<close>

text \<open>
  Table \<^verbatim>\<open>donations\<close> (lines 52-61): the columns \<^verbatim>\<open>id\<close>, \<^verbatim>\<open>amount\<close>, \<^verbatim>\<open>numbers\<close> and \<^verbatim>\<open>method\<close>
  carry the prefix \<open>donation_\<close> here; \<^verbatim>\<open>numbers\<close> is a \<^verbatim>\<open>text\<close> column. Table \<^verbatim>\<open>state\<close>
  (lines 65-69) holds at most the row with \<^verbatim>\<open>id = 1\<close>, with its columns \<^verbatim>\<open>goal\<close> and \<^verbatim>\<open>bio\<close>.
  The store also holds the sequence behind the \<^verbatim>\<open>bigserial\<close> key. Time stamps are
  milliseconds since the epoch.
\<close>

record donation =
  donation_id :: int
  donation_amount :: int
  donation_numbers :: string
  donation_method :: string
  donor_name :: string
  donor_phone :: string
  donor_address :: string
  created_at :: int

record state_row =
  state_goal :: int
  state_bio :: string

record store =
  donations :: "donation list"
  state :: "state_row option"
  donations_id_seq :: int

definition default_bio :: string where
  "default_bio = ''I'' @ [CHR 0x27] @ ''m passionate about serving others and making a difference in the lives of children. This Tanzania mission is close to my heart!''"

text \<open>\<^verbatim>\<open>init\<close> (lines 50-73): the tables exist in every store of the model; the settings row is
  inserted with the column defaults unless it is there already.\<close>

definition init :: "store \<Rightarrow> store" where
  "init db = (case state db of
       None \<Rightarrow> db\<lparr>state := Some \<lparr>state_goal = 3500, state_bio = default_bio\<rparr>\<rparr>
     | Some r \<Rightarrow> db)"

subsection \<open>Queries\<close>

text \<open>The common table expression of lines 87 and 113: every row's \<^verbatim>\<open>numbers\<close> text is cut at
  its commas and every piece is cast to \<^verbatim>\<open>integer\<close>; one piece that is not an integer fails
  the whole query.\<close>

definition unnest_numbers :: "store \<Rightarrow> int list option" where
  "unnest_numbers db =
     those (map pg_int4in (concat (map (\<lambda>d. string_to_array (donation_numbers d)) (donations db))))"

text \<open>Line 85: the sum and the count are 64-bit on the server and are cast to \<^verbatim>\<open>integer\<close>,
  which fails out of range.\<close>

definition totals_query :: "store \<Rightarrow> (int \<times> int) option" where
  "totals_query db =
     (let raised = sum_list (map donation_amount (donations db));
          n = int (length (donations db))
      in if int4 raised \<and> int4 n then Some (raised, n) else None)"

text \<open>Lines 86-89: \<^verbatim>\<open>group by n\<close> yields every distinct value once. SQL leaves the order of the
  groups open; the model lists them in one order and no theorem depends on it.\<close>

definition taken_query :: "store \<Rightarrow> int list option" where
  "taken_query db = map_option remdups (unnest_numbers db)"

text \<open>Lines 112-115: the values of the table that occur in the array parameter.\<close>

definition conflict_query :: "store \<Rightarrow> json list \<Rightarrow> int list option" where
  "conflict_query db xs = (case pg_int_array xs of
       None \<Rightarrow> None
     | Some arr \<Rightarrow> (case unnest_numbers db of
         None \<Rightarrow> None
       | Some ns \<Rightarrow> Some (filter (\<lambda>n. Some n \<in> set arr) ns)))"

section \<open>The routes\<close>

record state_json =
  raised :: int
  donationCount :: int
  goal :: int
  bio :: string
  takenNumbers :: "int list"

text \<open>What a route answers. \<open>ServerError\<close> is \<^verbatim>\<open>next(e)\<close>: a query has failed or a conversion
  has thrown, and the framework answers 500.\<close>

datatype response =
    OkJson
  | StateJson state_json
  | Created
  | BadRequest string
  | Unauthorized
  | Conflict "json list"
  | CsvFile string
  | ServerError

fun status :: "response \<Rightarrow> nat" where
  "status OkJson = 200"
| "status (StateJson s) = 200"
| "status Created = 201"
| "status (BadRequest e) = 400"
| "status Unauthorized = 401"
| "status (Conflict c) = 409"
| "status (CsvFile t) = 200"
| "status ServerError = 500"

text \<open>\<^verbatim>\<open>isAuthed\<close> (lines 75-77). The first argument is \<^verbatim>\<open>ADMIN_PASSWORD\<close>, the second the
  \<^verbatim>\<open>x-admin-key\<close> header, \<open>None\<close> when the request has none.\<close>

definition isAuthed :: "string \<Rightarrow> string option \<Rightarrow> bool" where
  "isAuthed ADMIN_PASSWORD key =
     ((case key of None \<Rightarrow> [] | Some k \<Rightarrow> if k = [] then [] else k) = ADMIN_PASSWORD)"

subsection \<open>GET /api/state\<close>

definition getState :: "store \<Rightarrow> response" where
  "getState db = (case totals_query db of
       None \<Rightarrow> ServerError
     | Some (r, n) \<Rightarrow> (case taken_query db of
         None \<Rightarrow> ServerError
       | Some taken \<Rightarrow> StateJson
           \<lparr>raised = r,
            donationCount = n,
            goal = (case state db of None \<Rightarrow> 3500 | Some st \<Rightarrow> state_goal st),
            bio = (case state db of None \<Rightarrow> [] | Some st \<Rightarrow> state_bio st),
            takenNumbers = taken\<rparr>))"

subsection \<open>POST /api/donations\<close>

record donation_body =
  amount :: "json option"
  numbers :: "json option"
  body_method :: "json option"
  donorName :: "json option"
  donorPhone :: "json option"
  donorAddress :: "json option"

definition methods :: "string list" where
  "methods = [''venmo'', ''cashapp'', ''paypal'', ''zelle'', ''manual'']"

text \<open>Lines 106-109, in their order: the text of the first check that fails, or \<open>None\<close>.
  The field \<^verbatim>\<open>method\<close> of the body is \<open>body_method\<close> here.\<close>

definition validate :: "donation_body \<Rightarrow> string option" where
  "validate b =
     (if \<not> (case numbers b of Some (JArr xs) \<Rightarrow> xs \<noteq> [] | _ \<Rightarrow> False)
        then Some ''numbers[] required''
      else if \<not> (case amount b of Some (JInt a) \<Rightarrow> 0 < a | _ \<Rightarrow> False)
        then Some ''invalid amount''
      else if \<not> (case body_method b of Some (JStr m) \<Rightarrow> m \<in> set methods | _ \<Rightarrow> False)
        then Some ''invalid method''
      else if \<not> js_truthy (donorName b) \<or> \<not> js_truthy (donorPhone b) \<or> \<not> js_truthy (donorAddress b)
        then Some ''donor info required''
      else None)"

text \<open>Lines 116-117: \<^verbatim>\<open>already\<close> is a set of numbers; \<^verbatim>\<open>Set.prototype.has\<close> finds a submitted
  element only when it is itself a number with one of these values.\<close>

fun already_has :: "int list \<Rightarrow> json \<Rightarrow> bool" where
  "already_has rows (JInt n) = (n \<in> set rows)"
| "already_has rows x = False"

text \<open>A parameter bound to a \<^verbatim>\<open>text\<close> column, and one bound to an \<^verbatim>\<open>integer\<close> column.
  The driver sends \<^verbatim>\<open>undefined\<close> as \<^verbatim>\<open>NULL\<close>, which a \<^verbatim>\<open>not null\<close> column refuses.\<close>

definition text_param :: "json option \<Rightarrow> string option" where
  "text_param x = (case x of
       None \<Rightarrow> None
     | Some v \<Rightarrow> (case prepareValue v of None \<Rightarrow> None | Some t \<Rightarrow> pg_textin t))"

definition int_param :: "json option \<Rightarrow> int option" where
  "int_param x = (case x of
       None \<Rightarrow> None
     | Some v \<Rightarrow> (case prepareValue v of None \<Rightarrow> None | Some t \<Rightarrow> pg_int4in t))"

text \<open>Lines 121-126: the insert. Every column is \<^verbatim>\<open>not null\<close>. The key comes from the
  sequence, \<^verbatim>\<open>created_at\<close> from the clock.\<close>

definition insert_donation ::
  "int \<Rightarrow> store \<Rightarrow> json option \<Rightarrow> string \<Rightarrow> json option \<Rightarrow> json option \<Rightarrow> json option \<Rightarrow>
     json option \<Rightarrow> store option" where
  "insert_donation now db a csv m dn dp da =
     (case (int_param a, pg_textin csv, text_param m, text_param dn, text_param dp, text_param da) of
        (Some a', Some csv', Some m', Some dn', Some dp', Some da') \<Rightarrow>
          Some (db\<lparr>donations := donations db @
                     [\<lparr>donation_id = donations_id_seq db, donation_amount = a',
                       donation_numbers = csv', donation_method = m', donor_name = dn',
                       donor_phone = dp', donor_address = da', created_at = now\<rparr>],
                   donations_id_seq := donations_id_seq db + 1\<rparr>)
      | _ \<Rightarrow> None)"

text \<open>The handler of lines 103-140. The forward to the spreadsheet (lines 128-136) touches
  neither the store nor the answer, its failure is caught, and it is left out. The last branch
  is never taken: a body that passes \<open>validate\<close> has an array in \<^verbatim>\<open>numbers\<close>.\<close>

definition recordDonation :: "int \<Rightarrow> store \<Rightarrow> donation_body \<Rightarrow> response \<times> store" where
  "recordDonation now db b = (case validate b of
       Some e \<Rightarrow> (BadRequest e, db)
     | None \<Rightarrow> (case numbers b of
         Some (JArr xs) \<Rightarrow>
           (case conflict_query db xs of
              None \<Rightarrow> (ServerError, db)
            | Some rows \<Rightarrow>
                (let conflicts = filter (already_has rows) xs
                 in if conflicts \<noteq> [] then (Conflict conflicts, db)
                    else (case js_join xs of
                            None \<Rightarrow> (ServerError, db)
                          | Some csv \<Rightarrow>
                              (case insert_donation now db (amount b) csv (body_method b)
                                      (donorName b) (donorPhone b) (donorAddress b) of
                                 None \<Rightarrow> (ServerError, db)
                               | Some db' \<Rightarrow> (Created, db')))))
       | _ \<Rightarrow> (ServerError, db)))"

subsection \<open>GET /api/export.csv\<close>

text \<open>Line 145: \<^verbatim>\<open>order by id desc\<close>.\<close>

definition order_by_id_desc :: "donation list \<Rightarrow> donation list" where
  "order_by_id_desc ds = rev (sort_key donation_id ds)"

definition csv_header :: "string list" where
  "csv_header = [''id'', ''amount'', ''numbers'', ''method'', ''donor_name'', ''donor_phone'',
                 ''donor_address'', ''created_at'']"

text \<open>Lines 146-150 with the casts of the driver and of the library: the 64-bit key arrives as
  its decimal text, the amount as a number, which is printed, and the date is printed as the
  number of its milliseconds.\<close>

definition csv_fields :: "donation \<Rightarrow> string list" where
  "csv_fields r = [dec_int (donation_id r), js_number_string (donation_amount r),
                   donation_numbers r, donation_method r, donor_name r, donor_phone r,
                   donor_address r, js_number_string (created_at r)]"

text \<open>\<^verbatim>\<open>stringify(out, { header: true })\<close>: the column names come from the first record, so no
  record means no header either. A field is quoted when it holds a comma, a quote or a line
  feed, with its quotes doubled; every record ends in a line feed.\<close>

definition csv_records :: "donation list \<Rightarrow> string list list" where
  "csv_records rows = (if rows = [] then [] else csv_header # map csv_fields rows)"

definition csv_field :: "string \<Rightarrow> string" where
  "csv_field t =
     (if CHR '','' \<in> set t \<or> CHR 0x22 \<in> set t \<or> CHR 0x0A \<in> set t
      then CHR 0x22 # concat (map (\<lambda>c. if c = CHR 0x22 then [c, c] else [c]) t) @ [CHR 0x22]
      else t)"

definition stringify :: "string list list \<Rightarrow> string" where
  "stringify recs = concat (map (\<lambda>r. join_with CHR '','' (map csv_field r) @ [CHR 0x0A]) recs)"

definition exportCsv :: "string \<Rightarrow> string option \<Rightarrow> store \<Rightarrow> response" where
  "exportCsv ADMIN_PASSWORD key db =
     (if \<not> isAuthed ADMIN_PASSWORD key then Unauthorized
      else CsvFile (stringify (csv_records (order_by_id_desc (donations db)))))"

subsection \<open>POST /api/admin/state\<close>

record state_body =
  body_bio :: "json option"
  body_goal :: "json option"

text \<open>The two updates of lines 162 and 163. An update of a row that is not there changes
  nothing and does not fail. The update of the bio fails when the server refuses the text, the
  update of the goal when the text of the number is no integer of the column's range.\<close>

definition update_bio :: "store \<Rightarrow> string \<Rightarrow> store option" where
  "update_bio db t = (case pg_textin t of
       None \<Rightarrow> None
     | Some t' \<Rightarrow> Some (db\<lparr>state := map_option (\<lambda>r. r\<lparr>state_bio := t'\<rparr>) (state db)\<rparr>))"

definition update_goal :: "store \<Rightarrow> number \<Rightarrow> store option" where
  "update_goal db x = (case pg_int4in (number_string x) of
       None \<Rightarrow> None
     | Some g' \<Rightarrow> Some (db\<lparr>state := map_option (\<lambda>r. r\<lparr>state_goal := g'\<rparr>) (state db)\<rparr>))"

text \<open>\<^verbatim>\<open>parseInt(goal, 10) || 3500\<close>: \<^verbatim>\<open>NaN\<close> and \<^verbatim>\<open>0\<close> are both falsy.\<close>

fun goal_or_default :: "number \<Rightarrow> number" where
  "goal_or_default NaN = Num 3500"
| "goal_or_default (Num n) = (if n = 0 then Num 3500 else Num n)"
| "goal_or_default PosInfinity = PosInfinity"
| "goal_or_default NegInfinity = NegInfinity"

text \<open>The handler of lines 158-166. Line 162 runs before line 163 evaluates its parameter:
  when \<^verbatim>\<open>String(bio)\<close> throws or the first update fails, nothing is written; when
  \<^verbatim>\<open>parseInt(goal, 10)\<close> throws or the second update fails, the bio of the first stays
  written.\<close>

definition updateState :: "string \<Rightarrow> string option \<Rightarrow> store \<Rightarrow> state_body \<Rightarrow> response \<times> store" where
  "updateState ADMIN_PASSWORD key db b =
     (if \<not> isAuthed ADMIN_PASSWORD key then (Unauthorized, db)
      else (case (case body_bio b of
                    None \<Rightarrow> Some db
                  | Some v \<Rightarrow> (case js_to_string v of
                                None \<Rightarrow> None
                              | Some t \<Rightarrow> update_bio db t)) of
              None \<Rightarrow> (ServerError, db)
            | Some db1 \<Rightarrow>
                (case (case body_goal b of
                         None \<Rightarrow> Some db1
                       | Some g \<Rightarrow> (case js_parseInt g of
                                     None \<Rightarrow> None
                                   | Some x \<Rightarrow> update_goal db1 (goal_or_default x))) of
                   None \<Rightarrow> (ServerError, db1)
                 | Some db2 \<Rightarrow> (OkJson, db2))))"

section \<open>Notions of the statements\<close>

text \<open>The integers that the \<^verbatim>\<open>numbers\<close> column of a row denotes, as the queries read it;
  \<open>None\<close> when some piece of the text is not an integer.\<close>

definition numbers_of :: "donation \<Rightarrow> int list option" where
  "numbers_of d = those (map pg_int4in (string_to_array (donation_numbers d)))"

definition numbers_set :: "donation \<Rightarrow> int set" where
  "numbers_set d = (case numbers_of d of None \<Rightarrow> {} | Some ns \<Rightarrow> set ns)"

text \<open>The data model's reading of a stored record: a non-empty set of integers, each from 1
  to 80.\<close>

definition numbers_in_range :: "donation \<Rightarrow> bool" where
  "numbers_in_range d = (case numbers_of d of
       None \<Rightarrow> False
     | Some ns \<Rightarrow> ns \<noteq> [] \<and> list_all (\<lambda>n. 1 \<le> n \<and> n \<le> 80) ns)"


text \<open>The text that line 162 stores for a submitted bio: \<^verbatim>\<open>String(bio)\<close>, when the conversion
  does not throw and the server takes the text.\<close>

definition bio_text :: "json \<Rightarrow> string option" where
  "bio_text v = (case js_to_string v of None \<Rightarrow> None | Some t \<Rightarrow> pg_textin t)"

text \<open>The numbers \<^verbatim>\<open>parseInt\<close> can return for which line 163 sends a value that the
  \<^verbatim>\<open>integer\<close> column takes.\<close>

fun goal_fits :: "number \<Rightarrow> bool" where
  "goal_fits NaN = True"
| "goal_fits (Num n) = int4 n"
| "goal_fits PosInfinity = False"
| "goal_fits NegInfinity = False"

text \<open>A reader of comma-separated values, for the text the export sends: records end in a
  line feed, fields are separated by commas, and a field that starts with a quote runs to its
  closing quote, a doubled quote inside standing for one quote. The reader goes through the
  text once; its state tells whether it is at the start of a field, inside a plain field, inside
  a quoted field, or just after a quote met inside a quoted field. It carries the field being
  read, the fields of the record being read and the records read. \<open>None\<close> is a text that is not
  of this form.\<close>

datatype csv_state = Start | Plain | Quoted | Closed

fun csv_read ::
  "csv_state \<Rightarrow> string \<Rightarrow> string list \<Rightarrow> string list list \<Rightarrow> string \<Rightarrow> string list list option" where
  "csv_read st f r rs [] = (if st = Start \<and> r = [] then Some rs else None)"
| "csv_read Quoted f r rs (c # cs) =
     (if c = CHR 0x22 then csv_read Closed f r rs cs else csv_read Quoted (f @ [c]) r rs cs)"
| "csv_read Closed f r rs (c # cs) =
     (if c = CHR 0x22 then csv_read Quoted (f @ [c]) r rs cs
      else if c = CHR '','' then csv_read Start [] (r @ [f]) rs cs
      else if c = CHR 0x0A then csv_read Start [] [] (rs @ [r @ [f]]) cs
      else None)"
| "csv_read Start f r rs (c # cs) =
     (if c = CHR '','' then csv_read Start [] (r @ [f]) rs cs
      else if c = CHR 0x0A then csv_read Start [] [] (rs @ [r @ [f]]) cs
      else if c = CHR 0x22 then csv_read Quoted [] r rs cs
      else csv_read Plain (f @ [c]) r rs cs)"
| "csv_read Plain f r rs (c # cs) =
     (if c = CHR '','' then csv_read Start [] (r @ [f]) rs cs
      else if c = CHR 0x0A then csv_read Start [] [] (rs @ [r @ [f]]) cs
      else csv_read Plain (f @ [c]) r rs cs)"

definition csv_parse :: "string \<Rightarrow> string list list option" where
  "csv_parse t = csv_read Start [] [] [] t"

text \<open>How the reader goes on once it has read the field \<open>f\<close> and the comma or line feed \<open>d\<close>
  after it: with the next field of the record, or with the next record.\<close>

definition after_field ::
  "char \<Rightarrow> string \<Rightarrow> string list \<Rightarrow> string list list \<Rightarrow> string \<Rightarrow> string list list option" where
  "after_field d f r rs rest =
     (if d = CHR '','' then csv_read Start [] (r @ [f]) rs rest
      else csv_read Start [] [] (rs @ [r @ [f]]) rest)"

text \<open>Sample data: the store right after start-up, the donation of the specification's
  scenario, and the store after it.\<close>

definition empty_store :: store where
  "empty_store = init \<lparr>donations = [], state = None, donations_id_seq = 1\<rparr>"

definition sample_body :: donation_body where
  "sample_body = \<lparr>amount = Some (JInt 10),
     numbers = Some (JArr [JInt 3, JInt 7]), body_method = Some (JStr ''venmo''),
     donorName = Some (JStr ''A''), donorPhone = Some (JStr ''1''),
     donorAddress = Some (JStr ''X'')\<rparr>"

definition sample_store :: store where
  "sample_store = snd (recordDonation 1700000000000 empty_store sample_body)"

text \<open>The store after two donations of 2147483647 each, for the numbers 1 and 2.\<close>

definition full_store :: store where
  "full_store =
     snd (recordDonation 2
       (snd (recordDonation 1 empty_store
          (sample_body\<lparr>amount := Some (JInt 2147483647), numbers := Some (JArr [JInt 1])\<rparr>)))
       (sample_body\<lparr>amount := Some (JInt 2147483647), numbers := Some (JArr [JInt 2])\<rparr>))"

text \<open>The stores the server can be in: \<open>init\<close> has run on whatever the database held
  (line 589, before the server listens), and then the writing routes have been called any
  number of times.\<close>

inductive served :: "store \<Rightarrow> bool" where
  started: "served (init db)"
| donated: "served db \<Longrightarrow> served (snd (recordDonation now db b))"
| updated: "served db \<Longrightarrow> served (snd (updateState ADMIN_PASSWORD key db sb))"

section \<open>Decimal text and the stored column\<close>

lemma of_char_digit_char: "d < 10 \<Longrightarrow> (of_char (digit_char d) :: nat) = 48 + d"
  by (simp add: digit_char_def)

lemma is_digit_digit_char: "d < 10 \<Longrightarrow> is_digit (digit_char d)"
  by (simp add: is_digit_def of_char_digit_char)

lemma dec_nat_digits: "list_all is_digit (dec_nat n)"
proof (induction n rule: dec_nat.induct)
  case (1 n)
  show ?case
  proof (cases "n < 10")
    case True
    then show ?thesis by (simp add: dec_nat.simps [of n] is_digit_digit_char)
  next
    case False
    with 1 show ?thesis by (simp add: dec_nat.simps [of n] is_digit_digit_char)
  qed
qed

lemma dec_nat_nonempty: "dec_nat n \<noteq> []"
  by (subst dec_nat.simps) simp

lemma digits_value_snoc: "digits_value (ds @ [c]) = 10 * digits_value ds + (of_char c - 48)"
  by (simp add: digits_value_def)

lemma digits_value_dec_nat: "digits_value (dec_nat n) = n"
proof (induction n rule: dec_nat.induct)
  case (1 n)
  show ?case
  proof (cases "n < 10")
    case True
    then show ?thesis by (simp add: dec_nat.simps [of n] digits_value_def of_char_digit_char)
  next
    case False
    with 1 show ?thesis
      by (simp add: dec_nat.simps [of n] digits_value_snoc of_char_digit_char)
  qed
qed

lemma is_digit_plain:
  "is_digit c \<Longrightarrow> \<not> isspace c \<and> c \<noteq> CHR ''-'' \<and> c \<noteq> CHR ''+'' \<and> c \<noteq> CHR '','' \<and> c \<noteq> CHR 0x00"
  by (auto simp: is_digit_def isspace_def)

lemma lead_int_digits:
  assumes "ds \<noteq> []" "list_all is_digit ds"
  shows "lead_int ds = Some (int (digits_value ds), [])"
proof -
  from assms obtain c r where ds: "ds = c # r" by (cases ds) auto
  with assms have c: "is_digit c" by simp
  have all: "\<forall>x\<in>set ds. is_digit x" using assms by (simp add: list_all_iff)
  have dw: "dropWhile isspace ds = ds" using c ds is_digit_plain by simp
  have ts: "take_sign ds = (False, ds)" using c ds is_digit_plain by (simp add: take_sign_def)
  have tw: "takeWhile is_digit ds = ds" using all by simp
  have dd: "dropWhile is_digit ds = []" using all by simp
  show ?thesis using assms(1) by (simp add: lead_int_def signed_digits_def dw ts tw dd)
qed

lemma lead_int_minus_digits:
  assumes "ds \<noteq> []" "list_all is_digit ds"
  shows "lead_int (CHR ''-'' # ds) = Some (- int (digits_value ds), [])"
proof -
  have all: "\<forall>x\<in>set ds. is_digit x" using assms by (simp add: list_all_iff)
  have ns: "\<not> isspace CHR ''-''" by (simp add: isspace_def)
  have ts: "take_sign (CHR ''-'' # ds) = (True, ds)" by (simp add: take_sign_def)
  have tw: "takeWhile is_digit ds = ds" using all by simp
  have dd: "dropWhile is_digit ds = []" using all by simp
  show ?thesis using assms(1) by (simp add: lead_int_def signed_digits_def ns ts tw dd)
qed

lemma pg_int4in_dec_int: "pg_int4in (dec_int n) = (if int4 n then Some n else None)"
  by (simp add: dec_int_def pg_int4in_def lead_int_digits lead_int_minus_digits
      dec_nat_digits dec_nat_nonempty digits_value_dec_nat)

lemma bit_length_nonpos: "x \<le> 0 \<Longrightarrow> bit_length x = 0"
  by (simp add: bit_length.simps)

lemma bit_length_upper: "x < 2 ^ k \<Longrightarrow> bit_length x \<le> k"
proof (induction k arbitrary: x)
  case 0
  then show ?case by (simp add: bit_length_nonpos)
next
  case (Suc k)
  show ?case
  proof (cases "x \<le> 0")
    case True
    then show ?thesis by (simp add: bit_length_nonpos)
  next
    case False
    from Suc.prems have "x div 2 < 2 ^ k" by simp
    from Suc.IH [OF this] False show ?thesis by (simp add: bit_length.simps [of x])
  qed
qed

lemma bit_length_lower: "0 < x \<Longrightarrow> 2 ^ (bit_length x - 1) \<le> x"
proof (induction x rule: bit_length.induct)
  case (1 x)
  show ?case
  proof (cases "0 < x div 2")
    case True
    with 1 have ih: "2 ^ (bit_length (x div 2) - 1) \<le> x div 2" by simp
    from True have p: "0 < bit_length (x div 2)" by (simp add: bit_length.simps [of "x div 2"])
    have "bit_length x = Suc (bit_length (x div 2))" using 1(2) by (simp add: bit_length.simps [of x])
    then have "(2::int) ^ (bit_length x - 1) = 2 * 2 ^ (bit_length (x div 2) - 1)"
      using p by (cases "bit_length (x div 2)") auto
    also have "\<dots> \<le> 2 * (x div 2)" using ih by simp
    also have "\<dots> \<le> x" by simp
    finally show ?thesis .
  next
    case False
    then have "bit_length (x div 2) = 0" by (simp add: bit_length_nonpos)
    then have "bit_length x = 1" using 1(2) by (simp add: bit_length.simps [of x])
    then show ?thesis using 1(2) by simp
  qed
qed

lemma bit_length_large: "2 ^ k \<le> x \<Longrightarrow> k < bit_length x"
proof (induction k arbitrary: x)
  case 0
  then show ?case by (simp add: bit_length.simps [of x])
next
  case (Suc k)
  then have "2 ^ k \<le> x div 2" by simp
  moreover have "(0::int) < 2 ^ Suc k" by simp
  then have "0 < x" using Suc.prems by linarith
  ultimately show ?case using Suc.IH [of "x div 2"]
    by (simp add: bit_length.simps [of x])
qed

lemma round_double_small: "x < 2 ^ 53 \<Longrightarrow> round_double x = Some x"
  using bit_length_upper [of x 53] by (simp add: round_double_def)

lemma round_double_large:
  assumes "2 ^ 53 \<le> x" "round_double x = Some d"
  shows "2 ^ 53 \<le> d"
proof -
  define L where "L = bit_length x"
  have L: "53 < L" using bit_length_large [OF assms(1)] by (simp add: L_def)
  define e :: int where "e = 2 ^ (L - 53)"
  have e2: "2 \<le> e"
  proof -
    from L obtain m where "L - 53 = Suc m" by (cases "L - 53") auto
    then show ?thesis by (simp add: e_def)
  qed
  have "(0::int) < 2 ^ 53" by simp
  then have x0: "0 < x" using assms(1) by linarith
  from L obtain m where m: "L = 53 + m" using less_imp_add_positive by blast
  have "(2::int) ^ (L - 1) = 2 ^ (52 + m)" using m by simp
  also have "\<dots> = 2 ^ 52 * 2 ^ (L - 53)" using m by (simp only: power_add add_diff_cancel_left')
  finally have "(2::int) ^ (L - 1) = 2 ^ 52 * e" by (simp only: e_def)
  then have "2 ^ 52 * e \<le> x" using bit_length_lower [OF x0] by (simp only: L_def)
  then have "(2 ^ 52 * e) div e \<le> x div e" using e2 by (intro zdiv_mono1) auto
  then have q: "2 ^ 52 \<le> x div e" using e2 by simp
  have "d = x div e * e \<or> d = (x div e + 1) * e"
    using assms(2) L by (auto simp: round_double_def Let_def L_def e_def split: if_splits)
  then have "x div e * e \<le> d" using e2 by (auto simp: algebra_simps)
  moreover have "2 ^ 52 * 2 \<le> x div e * e"
    using q e2 by (intro mult_mono) auto
  ultimately show ?thesis by simp
qed

lemma shortest_from_sound:
  "shortest_from j x = x \<or> round_double (shortest_from j x) = Some x"
  by (induction j) (auto simp: Let_def)

lemma js_shortest_large:
  assumes "2 ^ 53 \<le> x"
  shows "2 ^ 53 \<le> js_shortest x"
proof (rule ccontr)
  assume "\<not> 2 ^ 53 \<le> js_shortest x"
  then have "round_double (js_shortest x) = Some (js_shortest x)"
    by (intro round_double_small) simp
  moreover have "js_shortest x = x \<or> round_double (js_shortest x) = Some x"
    unfolding js_shortest_def by (rule shortest_from_sound)
  ultimately have "js_shortest x = x" by auto
  with assms \<open>\<not> 2 ^ 53 \<le> js_shortest x\<close> show False by simp
qed

lemma int4_small: "int4 n \<Longrightarrow> \<bar>n\<bar> < 2 ^ 53"
  by (auto simp: int4_def abs_if)

lemma to_number_small: "\<bar>n\<bar> < 2 ^ 53 \<Longrightarrow> to_number n = Num n"
  using round_double_small [of "\<bar>n\<bar>"] by (auto simp: to_number_def)

lemma number_string_small: "\<bar>d\<bar> < 2 ^ 53 \<Longrightarrow> number_string (Num d) = dec_int d"
  by (auto simp: dec_int_def Let_def abs_if)

lemma js_number_string_small: "\<bar>n\<bar> < 2 ^ 53 \<Longrightarrow> js_number_string n = dec_int n"
  by (simp only: js_number_string_def to_number_small number_string_small)

lemma js_number_string_int4: "int4 n \<Longrightarrow> js_number_string n = dec_int n"
  by (rule js_number_string_small) (rule int4_small)

lemma pg_int4in_number_string: "int4 n \<Longrightarrow> pg_int4in (js_number_string n) = Some n"
  by (simp add: js_number_string_int4 pg_int4in_dec_int)

lemma number_string_plain:
  assumes "int4 n"
  shows "CHR '','' \<notin> set (js_number_string n)" "CHR 0x00 \<notin> set (js_number_string n)"
    "js_number_string n \<noteq> []"
proof -
  have "\<forall>c\<in>set (dec_nat m). c \<noteq> CHR '','' \<and> c \<noteq> CHR 0x00" for m
    using dec_nat_digits [of m] is_digit_plain by (auto simp: list_all_iff)
  then show "CHR '','' \<notin> set (js_number_string n)" "CHR 0x00 \<notin> set (js_number_string n)"
    using assms by (auto simp: js_number_string_int4 dec_int_def)
  show "js_number_string n \<noteq> []"
    using assms by (simp add: js_number_string_int4 dec_int_def dec_nat_nonempty)
qed

lemma split_on_plain: "d \<notin> set p \<Longrightarrow> split_on d p = [p]"
  by (induction p) auto

lemma split_on_piece: "d \<notin> set p \<Longrightarrow> split_on d (p @ d # rest) = p # split_on d rest"
  by (induction p) auto

lemma split_on_join:
  "ps \<noteq> [] \<Longrightarrow> \<forall>p\<in>set ps. d \<notin> set p \<Longrightarrow> split_on d (join_with d ps) = ps"
  by (induction d ps rule: join_with.induct) (auto simp: split_on_plain split_on_piece)

lemma join_with_nonempty: "ps \<noteq> [] \<Longrightarrow> hd ps \<noteq> [] \<Longrightarrow> join_with d ps \<noteq> []"
  by (induction d ps rule: join_with.induct) auto

lemma string_to_array_join:
  assumes "ps \<noteq> []" "\<forall>p\<in>set ps. CHR '','' \<notin> set p \<and> p \<noteq> []"
  shows "string_to_array (join_with CHR '','' ps) = ps"
proof -
  have "hd ps \<noteq> []" using assms by (cases ps) auto
  then have "join_with CHR '','' ps \<noteq> []" using assms(1) by (rule join_with_nonempty [rotated])
  then show ?thesis using assms by (simp add: string_to_array_def split_on_join)
qed

lemma join_with_no_nul:
  "\<forall>p\<in>set ps. CHR 0x00 \<notin> set p \<Longrightarrow> CHR 0x00 \<notin> set (join_with CHR '','' ps)"
  by (induction "CHR '',''" ps rule: join_with.induct) auto

lemma js_elem_strings_ints: "js_elem_strings (map JInt ns) = Some (map js_number_string ns)"
  by (induction ns) auto

lemma js_join_ints: "js_join (map JInt ns) = Some (join_with CHR '','' (map js_number_string ns))"
  by (simp add: js_join_def js_elem_strings_ints)

lemma number_strings_int4: "list_all int4 ns \<Longrightarrow> map js_number_string ns = map dec_int ns"
  by (induction ns) (auto simp: js_number_string_int4)

lemma those_map_Some: "those (map Some xs) = Some xs"
  by (induction xs) auto

lemma those_append_Some:
  "those xs = Some a \<Longrightarrow> those ys = Some b \<Longrightarrow> those (xs @ ys) = Some (a @ b)"
  by (induction xs arbitrary: a) (auto split: option.splits)

lemma map_int4in_number_strings:
  "list_all int4 ns \<Longrightarrow> map (\<lambda>n. pg_int4in (js_number_string n)) ns = map Some ns"
  by (induction ns) (auto simp: pg_int4in_number_string)

lemma csv_numbers_roundtrip:
  assumes "ns \<noteq> []" "list_all int4 ns"
  shows "those (map pg_int4in (string_to_array (join_with CHR '','' (map js_number_string ns))))
           = Some ns"
proof -
  have "\<forall>p\<in>set (map js_number_string ns). CHR '','' \<notin> set p \<and> p \<noteq> []"
    using assms(2) number_string_plain by (auto simp: list_all_iff)
  then have "string_to_array (join_with CHR '','' (map js_number_string ns)) = map js_number_string ns"
    using assms(1) by (simp add: string_to_array_join)
  then show ?thesis
    using assms(2) by (simp add: comp_def map_int4in_number_strings those_map_Some)
qed

lemma csv_numbers_accepted:
  assumes "list_all int4 ns"
  shows "pg_textin (join_with CHR '','' (map js_number_string ns))
           = Some (join_with CHR '','' (map js_number_string ns))"
proof -
  have "\<forall>p\<in>set (map js_number_string ns). CHR 0x00 \<notin> set p"
    using assms number_string_plain by (auto simp: list_all_iff)
  then show ?thesis by (simp add: pg_textin_def join_with_no_nul)
qed

lemma elems_dims_ints: "elems_dims (map JInt ns) = map (\<lambda>n. Some []) ns"
  by (induction ns) auto

lemma array_leaves_ints: "array_leaves (map JInt ns) = map JInt ns"
  by (induction ns) auto

lemma pg_int_array_ints:
  assumes "list_all int4 ns"
  shows "pg_int_array (map JInt ns) = Some (map Some ns)"
proof -
  have d: "array_dims (JArr (map JInt ns)) = Some (if ns = [] then [0] else [length ns])"
    by (cases ns) (auto simp: elems_dims_ints list_all_iff)
  have t: "those (map (pg_int_elem \<circ> JInt) ns) = Some (map Some ns)"
    using assms by (induction ns) (auto simp: pg_int_elem_def pg_int4in_number_string)
  show ?thesis
    by (simp add: pg_int_array_def d array_leaves_ints t del: array_dims.simps)
qed

lemma digit_chars:
  "digit_char 0 = CHR ''0''" "digit_char (Suc 0) = CHR ''1''" "digit_char 2 = CHR ''2''"
  "digit_char 3 = CHR ''3''" "digit_char 4 = CHR ''4''" "digit_char 5 = CHR ''5''"
  "digit_char 6 = CHR ''6''" "digit_char 7 = CHR ''7''" "digit_char 8 = CHR ''8''"
  "digit_char 9 = CHR ''9''"
  by code_simp+

lemma lead_int_stop:
  assumes "is_digit d" "\<not> is_digit c"
  shows "lead_int (d # c # t) = Some (int (digits_value [d]), c # t)"
    and "lead_int (CHR ''-'' # d # c # t) = Some (- int (digits_value [d]), c # t)"
proof -
  have ns: "\<not> isspace d" "d \<noteq> CHR ''-''" "d \<noteq> CHR ''+''" using assms(1) is_digit_plain by auto
  have nm: "\<not> isspace CHR ''-''" by (simp add: isspace_def)
  show "lead_int (d # c # t) = Some (int (digits_value [d]), c # t)"
    using assms ns by (simp add: lead_int_def signed_digits_def take_sign_def)
  show "lead_int (CHR ''-'' # d # c # t) = Some (- int (digits_value [d]), c # t)"
    using assms nm by (simp add: lead_int_def signed_digits_def take_sign_def)
qed

lemma pg_int4in_stop:
  assumes "is_digit d" "\<not> is_digit c" "\<not> isspace c"
  shows "pg_int4in (d # c # t) = None" "pg_int4in (CHR ''-'' # d # c # t) = None"
  using assms by (simp_all add: pg_int4in_def lead_int_stop)

lemma exp_form_shape:
  assumes "ds \<noteq> []" "list_all is_digit ds"
  shows "\<exists>d c t. exp_form ds = d # c # t \<and> is_digit d \<and> \<not> is_digit c \<and> \<not> isspace c"
proof -
  from assms obtain d rest where ds: "ds = d # rest" "is_digit d" by (cases ds) auto
  have e: "\<not> is_digit CHR ''e''" "\<not> isspace CHR ''e''" "\<not> is_digit CHR ''.''" "\<not> isspace CHR ''.''"
    by (simp_all add: is_digit_def isspace_def)
  show ?thesis
    using ds e by (auto simp: exp_form_def Let_def)
qed

lemma pg_int4in_not_finite:
  "pg_int4in (number_string NaN) = None" "pg_int4in (number_string PosInfinity) = None"
  "pg_int4in (number_string NegInfinity) = None"
  by (simp_all add: pg_int4in_def lead_int_def signed_digits_def take_sign_def isspace_def is_digit_def)

lemma pg_int4in_number_large:
  assumes "2 ^ 53 \<le> \<bar>d\<bar>"
  shows "pg_int4in (number_string (Num d)) = None"
proof -
  define c where "c = js_shortest \<bar>d\<bar>"
  have c: "2 ^ 53 \<le> c" unfolding c_def using assms by (rule js_shortest_large)
  have n: "\<not> \<bar>d\<bar> < 2 ^ 53" using assms by simp
  show ?thesis
  proof (cases "c < 10 ^ 21")
    case True
    have "number_string (Num d) = dec_int (if d < 0 then - c else c)"
      using True c n by (auto simp: c_def [symmetric] Let_def dec_int_def)
    moreover have "\<not> int4 (if d < 0 then - c else c)" using c by (auto simp: int4_def)
    ultimately show ?thesis by (simp only: pg_int4in_dec_int if_False)
  next
    case False
    obtain a b t where s: "exp_form (dec_nat (nat c)) = a # b # t" "is_digit a" "\<not> is_digit b" "\<not> isspace b"
      using exp_form_shape [OF dec_nat_nonempty dec_nat_digits] by blast
    have "number_string (Num d) = (if d < 0 then CHR ''-'' # a # b # t else a # b # t)"
      using False n s(1) by (simp add: c_def [symmetric] Let_def)
    then show ?thesis using s pg_int4in_stop by simp
  qed
qed

lemma pg_int4in_number:
  "pg_int4in (number_string (Num d)) = (if int4 d then Some d else None)"
proof (cases "\<bar>d\<bar> < 2 ^ 53")
  case True
  then show ?thesis by (simp only: number_string_small pg_int4in_dec_int)
next
  case False
  then have "\<not> int4 d" using int4_small by blast
  moreover have "pg_int4in (number_string (Num d)) = None"
    using False by (intro pg_int4in_number_large) simp
  ultimately show ?thesis by simp
qed

lemma pg_int4in_number_string_iff:
  "pg_int4in (js_number_string n) = (if int4 n then Some n else None)"
proof (cases "\<bar>n\<bar> < 2 ^ 53")
  case True
  then show ?thesis by (simp only: js_number_string_def to_number_small pg_int4in_number)
next
  case False
  then have ni: "\<not> int4 n" using int4_small by blast
  have l: "2 ^ 53 \<le> \<bar>n\<bar>" using False by simp
  have "pg_int4in (js_number_string n) = None"
  proof (cases "round_double \<bar>n\<bar>")
    case None
    then show ?thesis by (simp add: js_number_string_def to_number_def pg_int4in_not_finite del: number_string.simps)
  next
    case (Some d)
    from round_double_large [OF l Some] have "2 ^ 53 \<le> \<bar>if n < 0 then - d else d\<bar>" by simp
    from pg_int4in_number_large [OF this] show ?thesis
      by (simp only: js_number_string_def to_number_def Some option.case)
  qed
  then show ?thesis using ni by simp
qed

lemma those_Some_all: "those xs = Some ys \<Longrightarrow> \<forall>x\<in>set xs. x \<noteq> None"
  by (induction xs arbitrary: ys) (auto split: option.splits)

lemma pg_int_array_ints_Some:
  assumes "pg_int_array (map JInt ns) = Some arr"
  shows "list_all int4 ns"
proof -
  from assms have "those (map pg_int_elem (map JInt ns)) \<noteq> None"
    by (auto simp: pg_int_array_def array_leaves_ints split: option.splits if_splits)
  then obtain ys where "those (map pg_int_elem (map JInt ns)) = Some ys" by auto
  from those_Some_all [OF this] have "\<forall>n\<in>set ns. pg_int_elem (JInt n) \<noteq> None" by simp
  then show ?thesis
    by (auto simp: list_all_iff pg_int_elem_def pg_int4in_number_string_iff split: if_splits)
qed

lemma int_param_int: "int4 n \<Longrightarrow> int_param (Some (JInt n)) = Some n"
  by (simp add: int_param_def pg_int4in_number_string)

lemma unnest_numbers_inserted:
  assumes "unnest_numbers db = Some taken" "numbers_of d = Some ns"
  shows "unnest_numbers (db\<lparr>donations := donations db @ [d], donations_id_seq := k\<rparr>) = Some (taken @ ns)"
  using those_append_Some [OF assms(1) [unfolded unnest_numbers_def] assms(2) [unfolded numbers_of_def]]
  by (simp add: unnest_numbers_def)

lemma count_list_remdups: "count_list (remdups xs) v = (if v \<in> set xs then 1 else 0)"
  by (induction xs) (auto simp: count_list_0_iff)

lemma count_list_member: "0 < count_list xs v \<Longrightarrow> v \<in> set xs"
  by (induction xs) (auto split: if_splits)

section \<open>Validation\<close>

lemma numbers_check:
  "(case v of Some (JArr xs) \<Rightarrow> xs \<noteq> [] | _ \<Rightarrow> False) = (\<exists>xs. v = Some (JArr xs) \<and> xs \<noteq> [])"
  by (auto split: option.splits json.splits)

lemma amount_check:
  "(case v of Some (JInt a) \<Rightarrow> 0 < a | _ \<Rightarrow> False) = (\<exists>a. v = Some (JInt a) \<and> 0 < a)"
  by (auto split: option.splits json.splits)

lemma method_check:
  "(case v of Some (JStr m) \<Rightarrow> m \<in> set methods | _ \<Rightarrow> False) = (\<exists>m. v = Some (JStr m) \<and> m \<in> set methods)"
  by (auto split: option.splits json.splits)

lemma validate_checks:
  "validate b =
     (if \<not> (\<exists>xs. numbers b = Some (JArr xs) \<and> xs \<noteq> []) then Some ''numbers[] required''
      else if \<not> (\<exists>a. amount b = Some (JInt a) \<and> 0 < a) then Some ''invalid amount''
      else if \<not> (\<exists>m. body_method b = Some (JStr m) \<and> m \<in> set methods) then Some ''invalid method''
      else if \<not> js_truthy (donorName b) \<or> \<not> js_truthy (donorPhone b) \<or> \<not> js_truthy (donorAddress b)
        then Some ''donor info required''
      else None)"
  unfolding validate_def numbers_check amount_check method_check ..

lemma validate_None:
  assumes "validate b = None"
  shows "(\<exists>xs. numbers b = Some (JArr xs) \<and> xs \<noteq> []) \<and> (\<exists>a. amount b = Some (JInt a) \<and> 0 < a) \<and>
         (\<exists>m. body_method b = Some (JStr m) \<and> m \<in> set methods) \<and>
         js_truthy (donorName b) \<and> js_truthy (donorPhone b) \<and> js_truthy (donorAddress b)"
  using assms unfolding validate_checks by (simp split: if_splits)

lemma recordDonation_invalid: "validate b = Some e \<Longrightarrow> recordDonation now db b = (BadRequest e, db)"
  by (simp add: recordDonation_def)

text \<open>
  Claim C5. \<^verbatim>\<open>recordDonation\<close> checks \<^verbatim>\<open>numbers\<close>, then \<^verbatim>\<open>amount\<close>, then \<^verbatim>\<open>method\<close>, then the
  donor fields, and the first check that fails decides the answer. An amount that is not a
  positive integer, a method outside the five known ones, or an empty or missing donor field
  each give a 400 answer, whatever the other fields and the store are, and the store is the
  one before the request.
\<close>

theorem validation_first_failure_wins:
  "(\<not> (\<exists>xs. numbers b = Some (JArr xs) \<and> xs \<noteq> []) \<longrightarrow>
            recordDonation now db b = (BadRequest ''numbers[] required'', db))
       \<and> ((\<exists>xs. numbers b = Some (JArr xs) \<and> xs \<noteq> []) \<and>
          \<not> (\<exists>a. amount b = Some (JInt a) \<and> 0 < a) \<longrightarrow>
            recordDonation now db b = (BadRequest ''invalid amount'', db))
       \<and> ((\<exists>xs. numbers b = Some (JArr xs) \<and> xs \<noteq> []) \<and>
          (\<exists>a. amount b = Some (JInt a) \<and> 0 < a) \<and>
          \<not> (\<exists>m. body_method b = Some (JStr m) \<and> m \<in> set methods) \<longrightarrow>
            recordDonation now db b = (BadRequest ''invalid method'', db))
       \<and> ((\<exists>xs. numbers b = Some (JArr xs) \<and> xs \<noteq> []) \<and>
          (\<exists>a. amount b = Some (JInt a) \<and> 0 < a) \<and>
          (\<exists>m. body_method b = Some (JStr m) \<and> m \<in> set methods) \<and>
          (\<not> js_truthy (donorName b) \<or> \<not> js_truthy (donorPhone b) \<or> \<not> js_truthy (donorAddress b)) \<longrightarrow>
            recordDonation now db b = (BadRequest ''donor info required'', db))
       \<and> (\<not> (\<exists>a. amount b = Some (JInt a) \<and> 0 < a) \<or>
          \<not> (\<exists>m. body_method b = Some (JStr m) \<and> m \<in> set methods) \<or>
          donorName b \<in> {None, Some (JStr [])} \<or> donorPhone b \<in> {None, Some (JStr [])} \<or>
          donorAddress b \<in> {None, Some (JStr [])} \<longrightarrow>
            status (fst (recordDonation now db b)) = 400 \<and> snd (recordDonation now db b) = db)"
proof -
  have n: "\<not> (\<exists>xs. numbers b = Some (JArr xs) \<and> xs \<noteq> []) \<Longrightarrow> validate b = Some ''numbers[] required''"
    by (simp add: validate_checks)
  have a: "(\<exists>xs. numbers b = Some (JArr xs) \<and> xs \<noteq> []) \<Longrightarrow> \<not> (\<exists>a. amount b = Some (JInt a) \<and> 0 < a)
      \<Longrightarrow> validate b = Some ''invalid amount''"
    by (simp add: validate_checks)
  have m: "(\<exists>xs. numbers b = Some (JArr xs) \<and> xs \<noteq> []) \<Longrightarrow> (\<exists>a. amount b = Some (JInt a) \<and> 0 < a)
      \<Longrightarrow> \<not> (\<exists>m. body_method b = Some (JStr m) \<and> m \<in> set methods)
      \<Longrightarrow> validate b = Some ''invalid method''"
    by (simp add: validate_checks)
  have d: "(\<exists>xs. numbers b = Some (JArr xs) \<and> xs \<noteq> []) \<Longrightarrow> (\<exists>a. amount b = Some (JInt a) \<and> 0 < a)
      \<Longrightarrow> (\<exists>m. body_method b = Some (JStr m) \<and> m \<in> set methods)
      \<Longrightarrow> \<not> js_truthy (donorName b) \<or> \<not> js_truthy (donorPhone b) \<or> \<not> js_truthy (donorAddress b)
      \<Longrightarrow> validate b = Some ''donor info required''"
    by (simp add: validate_checks)
  have any: "\<exists>msg. validate b = Some msg"
    if h: "\<not> (\<exists>a. amount b = Some (JInt a) \<and> 0 < a) \<or>
          \<not> (\<exists>m. body_method b = Some (JStr m) \<and> m \<in> set methods) \<or>
          donorName b \<in> {None, Some (JStr [])} \<or> donorPhone b \<in> {None, Some (JStr [])} \<or>
          donorAddress b \<in> {None, Some (JStr [])}"
  proof (cases "validate b")
    case None
    from validate_None [OF this] h show ?thesis by auto
  next
    case (Some msg)
    then show ?thesis by simp
  qed
  have 1: "\<not> (\<exists>xs. numbers b = Some (JArr xs) \<and> xs \<noteq> []) \<longrightarrow>
            recordDonation now db b = (BadRequest ''numbers[] required'', db)"
    using n by (simp add: recordDonation_invalid)
  have 2: "(\<exists>xs. numbers b = Some (JArr xs) \<and> xs \<noteq> []) \<and>
          \<not> (\<exists>a. amount b = Some (JInt a) \<and> 0 < a) \<longrightarrow>
            recordDonation now db b = (BadRequest ''invalid amount'', db)"
    using a by (simp add: recordDonation_invalid)
  have 3: "(\<exists>xs. numbers b = Some (JArr xs) \<and> xs \<noteq> []) \<and>
          (\<exists>a. amount b = Some (JInt a) \<and> 0 < a) \<and>
          \<not> (\<exists>m. body_method b = Some (JStr m) \<and> m \<in> set methods) \<longrightarrow>
            recordDonation now db b = (BadRequest ''invalid method'', db)"
    using m by (simp add: recordDonation_invalid)
  have 4: "(\<exists>xs. numbers b = Some (JArr xs) \<and> xs \<noteq> []) \<and>
          (\<exists>a. amount b = Some (JInt a) \<and> 0 < a) \<and>
          (\<exists>m. body_method b = Some (JStr m) \<and> m \<in> set methods) \<and>
          (\<not> js_truthy (donorName b) \<or> \<not> js_truthy (donorPhone b) \<or> \<not> js_truthy (donorAddress b)) \<longrightarrow>
            recordDonation now db b = (BadRequest ''donor info required'', db)"
    using d by (simp add: recordDonation_invalid)
  have 5: "\<not> (\<exists>a. amount b = Some (JInt a) \<and> 0 < a) \<or>
          \<not> (\<exists>m. body_method b = Some (JStr m) \<and> m \<in> set methods) \<or>
          donorName b \<in> {None, Some (JStr [])} \<or> donorPhone b \<in> {None, Some (JStr [])} \<or>
          donorAddress b \<in> {None, Some (JStr [])} \<longrightarrow>
            status (fst (recordDonation now db b)) = 400 \<and> snd (recordDonation now db b) = db"
  proof
    assume "\<not> (\<exists>a. amount b = Some (JInt a) \<and> 0 < a) \<or>
          \<not> (\<exists>m. body_method b = Some (JStr m) \<and> m \<in> set methods) \<or>
          donorName b \<in> {None, Some (JStr [])} \<or> donorPhone b \<in> {None, Some (JStr [])} \<or>
          donorAddress b \<in> {None, Some (JStr [])}"
    then obtain msg where "validate b = Some msg" using any by blast
    then show "status (fst (recordDonation now db b)) = 400 \<and> snd (recordDonation now db b) = db"
      by (simp add: recordDonation_invalid)
  qed
  show ?thesis by (intro conjI; fact)
qed

text \<open>The four checks and the independent rejection, on the sample donation with one field
  spoilt at a time.\<close>

theorem validation_first_failure_wins_witness:
  "recordDonation 0 sample_store (sample_body\<lparr>numbers := Some (JArr [])\<rparr>)
     = (BadRequest ''numbers[] required'', sample_store)
   \<and> recordDonation 0 sample_store (sample_body\<lparr>amount := Some (JInt 0)\<rparr>)
     = (BadRequest ''invalid amount'', sample_store)
   \<and> recordDonation 0 sample_store (sample_body\<lparr>body_method := Some (JStr ''cash'')\<rparr>)
     = (BadRequest ''invalid method'', sample_store)
   \<and> recordDonation 0 sample_store (sample_body\<lparr>donorPhone := Some (JStr [])\<rparr>)
     = (BadRequest ''donor info required'', sample_store)
   \<and> status (fst (recordDonation 0 sample_store (sample_body\<lparr>amount := Some (JFrac ''10.5''), numbers := None\<rparr>))) = 400
   \<and> snd (recordDonation 0 sample_store (sample_body\<lparr>amount := Some (JFrac ''10.5''), numbers := None\<rparr>)) = sample_store"
  using validation_first_failure_wins [of "sample_body\<lparr>numbers := Some (JArr [])\<rparr>" 0 sample_store]
    validation_first_failure_wins [of "sample_body\<lparr>amount := Some (JInt 0)\<rparr>" 0 sample_store]
    validation_first_failure_wins [of "sample_body\<lparr>body_method := Some (JStr ''cash'')\<rparr>" 0 sample_store]
    validation_first_failure_wins [of "sample_body\<lparr>donorPhone := Some (JStr [])\<rparr>" 0 sample_store]
    validation_first_failure_wins [of "sample_body\<lparr>amount := Some (JFrac ''10.5''), numbers := None\<rparr>" 0 sample_store]
  by (simp add: sample_body_def methods_def)

text \<open>
  Claim C3, as the code has it. A request whose \<^verbatim>\<open>numbers\<close> field is missing, is not a list or
  is the empty list is rejected with 400, and the store is the one before the request. Line 106
  looks at nothing else: the elements of a non-empty list are not checked.
\<close>

theorem numbers_not_a_list_rejected:
  assumes "\<not> (\<exists>xs. numbers b = Some (JArr xs) \<and> xs \<noteq> [])"
  shows "recordDonation now db b = (BadRequest ''numbers[] required'', db)
       \<and> status (fst (recordDonation now db b)) = 400"
proof -
  have "validate b = Some ''numbers[] required''"
    using assms by (simp add: validate_checks)
  then show ?thesis by (simp add: recordDonation_invalid)
qed

text \<open>A text in place of the list.\<close>

theorem numbers_not_a_list_rejected_witness:
  "recordDonation 0 sample_store (sample_body\<lparr>numbers := Some (JStr ''3,7'')\<rparr>)
     = (BadRequest ''numbers[] required'', sample_store)
   \<and> status (fst (recordDonation 0 sample_store (sample_body\<lparr>numbers := Some (JStr ''3,7'')\<rparr>))) = 400"
  using numbers_not_a_list_rejected [of "sample_body\<lparr>numbers := Some (JStr ''3,7'')\<rparr>" 0 sample_store]
  by simp

text \<open>Claim C3 as stated fails for a non-empty list with an element that is not an integer:
  the list with the string \<^verbatim>\<open>"7"\<close> passes line 106, the store casts the parameter to the
  integer 7, and on the empty ledger the donation is recorded with answer 201.\<close>

theorem non_integer_element_counterexample:
  "status (fst (recordDonation 0 empty_store (sample_body\<lparr>numbers := Some (JArr [JStr ''7''])\<rparr>))) = 201
   \<and> map donation_numbers
        (donations (snd (recordDonation 0 empty_store (sample_body\<lparr>numbers := Some (JArr [JStr ''7''])\<rparr>))))
     = [''7'']"
  by code_simp

section \<open>The conflict check\<close>

lemma conflict_query_ints:
  assumes "list_all int4 ns" "unnest_numbers db = Some taken"
  shows "conflict_query db (map JInt ns) = Some (filter (\<lambda>n. n \<in> set ns) taken)"
proof -
  have "(\<lambda>n. Some n \<in> set (map Some ns)) = (\<lambda>n. n \<in> set ns)" by auto
  then show ?thesis using assms by (simp add: conflict_query_def pg_int_array_ints)
qed

lemma filter_already_has:
  "filter (already_has rows) (map JInt ns) = map JInt (filter (\<lambda>n. n \<in> set rows) ns)"
  by (induction ns) auto

lemma sample_store_eq:
  "sample_store =
     \<lparr>donations = [\<lparr>donation_id = 1, donation_amount = 10, donation_numbers = ''3,7'',
          donation_method = ''venmo'', donor_name = ''A'', donor_phone = ''1'',
          donor_address = ''X'', created_at = 1700000000000\<rparr>],
      state = Some \<lparr>state_goal = 3500, state_bio = default_bio\<rparr>,
      donations_id_seq = 2\<rparr>"
  by code_simp

lemma sample_store_numbers: "unnest_numbers sample_store = Some [3, 7]"
  by code_simp

text \<open>
  Claim C1, as the code has it. Take a request that passes the validation and whose
  \<^verbatim>\<open>numbers\<close> are integers of the store's 32-bit range, and a store whose \<^verbatim>\<open>numbers\<close> columns
  all read as integers. If one of the submitted numbers is already in a stored record, the
  answer is 409, its \<^verbatim>\<open>conflicts\<close> are exactly the submitted numbers that are already stored,
  in the order submitted, no record is written, and \<^verbatim>\<open>getState\<close> answers as before.
\<close>

theorem conflict_rejected_unchanged:
  assumes "validate b = None"
    and "numbers b = Some (JArr (map JInt ns))"
    and "list_all int4 ns"
    and "unnest_numbers db = Some taken"
    and "\<exists>n\<in>set ns. n \<in> set taken"
  shows "recordDonation now db b = (Conflict (map JInt (filter (\<lambda>n. n \<in> set taken) ns)), db)
       \<and> getState (snd (recordDonation now db b)) = getState db"
proof -
  let ?rows = "filter (\<lambda>n. n \<in> set ns) taken"
  have q: "conflict_query db (map JInt ns) = Some ?rows"
    using assms(3,4) by (rule conflict_query_ints)
  have "filter (\<lambda>n. n \<in> set ?rows) ns = filter (\<lambda>n. n \<in> set taken) ns"
    by (rule filter_cong) auto
  then have c: "filter (already_has ?rows) (map JInt ns) = map JInt (filter (\<lambda>n. n \<in> set taken) ns)"
    by (simp add: filter_already_has)
  have ne: "filter (\<lambda>n. n \<in> set taken) ns \<noteq> []"
    using assms(5) by (auto simp: filter_empty_conv)
  have "recordDonation now db b = (Conflict (map JInt (filter (\<lambda>n. n \<in> set taken) ns)), db)"
    using ne by (simp add: recordDonation_def assms(1,2) q c)
  then show ?thesis by simp
qed

text \<open>The scenario of the specification: 3 and 7 are taken, 7 and 9 are asked for.\<close>

theorem conflict_rejected_unchanged_witness:
  "recordDonation 0 sample_store (sample_body\<lparr>numbers := Some (JArr [JInt 7, JInt 9])\<rparr>)
     = (Conflict [JInt 7], sample_store)
   \<and> getState (snd (recordDonation 0 sample_store (sample_body\<lparr>numbers := Some (JArr [JInt 7, JInt 9])\<rparr>)))
     = getState sample_store"
proof -
  have v: "validate (sample_body\<lparr>numbers := Some (JArr [JInt 7, JInt 9])\<rparr>) = None"
    by (simp add: validate_def sample_body_def methods_def)
  have n: "numbers (sample_body\<lparr>numbers := Some (JArr [JInt 7, JInt 9])\<rparr>) = Some (JArr (map JInt [7, 9]))"
    by simp
  have r: "list_all int4 [7, 9]" by (simp add: int4_def)
  have c: "\<exists>n\<in>set [7, 9 :: int]. n \<in> set [3, 7]" by simp
  show ?thesis
    using conflict_rejected_unchanged [OF v n r sample_store_numbers c, of 0] by simp
qed

text \<open>Claim C1 as stated fails: validation comes first. With 7 taken, a request for 7 and 9
  whose amount is 0 is answered 400, not 409.\<close>

theorem conflict_before_validation_counterexample:
  "unnest_numbers sample_store = Some [3, 7]
   \<and> recordDonation 0 sample_store (sample_body\<lparr>amount := Some (JInt 0), numbers := Some (JArr [JInt 7, JInt 9])\<rparr>)
     = (BadRequest ''invalid amount'', sample_store)"
  by (simp add: sample_store_numbers recordDonation_def validate_def)

section \<open>What a recorded donation stores\<close>

lemma insert_donation_row:
  assumes "insert_donation now db a csv m dn dp da = Some db'"
  shows "\<exists>d. donations db' = donations db @ [d] \<and> donation_numbers d = csv
           \<and> donation_id d = donations_id_seq db \<and> created_at d = now \<and> state db' = state db"
  using assms by (auto simp: insert_donation_def pg_textin_def split: option.splits if_splits)

lemma recordDonation_Created:
  assumes "recordDonation now db b = (Created, db')"
  shows "\<exists>xs rows csv. numbers b = Some (JArr xs) \<and> xs \<noteq> [] \<and> validate b = None
           \<and> conflict_query db xs = Some rows \<and> filter (already_has rows) xs = []
           \<and> js_join xs = Some csv
           \<and> insert_donation now db (amount b) csv (body_method b)
                (donorName b) (donorPhone b) (donorAddress b) = Some db'"
proof -
  have v: "validate b = None"
    using assms by (cases "validate b") (auto simp: recordDonation_def)
  then obtain xs where xs: "numbers b = Some (JArr xs)" "xs \<noteq> []"
    using validate_None by blast
  show ?thesis
    using assms v xs
    by (auto simp: recordDonation_def Let_def split: option.splits if_splits)
qed

lemma js_join_int4:
  "list_all int4 ns \<Longrightarrow> js_join (map JInt ns) = Some (join_with CHR '','' (map dec_int ns))"
  by (simp add: js_join_ints number_strings_int4)

lemma methods_accepted: "m \<in> set methods \<Longrightarrow> text_param (Some (JStr m)) = Some m"
  by (auto simp: methods_def text_param_def pg_textin_def)

lemma recordDonation_fresh_ints:
  assumes "amount b = Some (JInt a)" and "0 < a" and "int4 a"
    and "body_method b = Some (JStr m)" and "m \<in> set methods"
    and "js_truthy (donorName b)" and "js_truthy (donorPhone b)" and "js_truthy (donorAddress b)"
    and "text_param (donorName b) = Some dn" and "text_param (donorPhone b) = Some dp"
    and "text_param (donorAddress b) = Some da"
    and "numbers b = Some (JArr (map JInt ns))" and "ns \<noteq> []" and "list_all int4 ns"
    and "unnest_numbers db = Some taken" and "set ns \<inter> set taken = {}"
  shows "validate b = None"
    and "conflict_query db (map JInt ns) = Some []"
    and "recordDonation now db b =
           (Created, db\<lparr>donations := donations db @ [\<lparr>donation_id = donations_id_seq db, donation_amount = a,
             donation_numbers = join_with CHR '','' (map dec_int ns), donation_method = m,
             donor_name = dn, donor_phone = dp, donor_address = da, created_at = now\<rparr>],
              donations_id_seq := donations_id_seq db + 1\<rparr>)"
    and "numbers_of \<lparr>donation_id = donations_id_seq db, donation_amount = a,
             donation_numbers = join_with CHR '','' (map dec_int ns), donation_method = m,
             donor_name = dn, donor_phone = dp, donor_address = da, created_at = now\<rparr> = Some ns"
    and "unnest_numbers (db\<lparr>donations := donations db @ [\<lparr>donation_id = donations_id_seq db, donation_amount = a,
             donation_numbers = join_with CHR '','' (map dec_int ns), donation_method = m,
             donor_name = dn, donor_phone = dp, donor_address = da, created_at = now\<rparr>],
              donations_id_seq := donations_id_seq db + 1\<rparr>)
           = Some (taken @ ns)"
proof -
  let ?csv = "join_with CHR '','' (map dec_int ns)"
  let ?d = "\<lparr>donation_id = donations_id_seq db, donation_amount = a,
             donation_numbers = ?csv, donation_method = m,
             donor_name = dn, donor_phone = dp, donor_address = da, created_at = now\<rparr>"
  let ?db' = "db\<lparr>donations := donations db @ [?d], donations_id_seq := donations_id_seq db + 1\<rparr>"
  have e: "map js_number_string ns = map dec_int ns"
    using assms(14) by (rule number_strings_int4)
  show val: "validate b = None"
    using assms(1-8,12,13) by (simp add: validate_checks)
  have "filter (\<lambda>n. n \<in> set ns) taken = []"
    using assms(16) by (auto simp: filter_empty_conv)
  then show q: "conflict_query db (map JInt ns) = Some []"
    using conflict_query_ints [OF assms(14,15)] by simp
  have j: "js_join (map JInt ns) = Some ?csv"
    using assms(14) by (rule js_join_int4)
  have t: "pg_textin ?csv = Some ?csv"
    using csv_numbers_accepted [OF assms(14)] by (simp only: e)
  have ins: "insert_donation now db (amount b) ?csv (body_method b)
               (donorName b) (donorPhone b) (donorAddress b) = Some ?db'"
    using assms(1,3,4,9,10,11) t methods_accepted [OF assms(5)]
    by (simp add: insert_donation_def int_param_int)
  show "recordDonation now db b = (Created, ?db')"
    by (simp add: recordDonation_def val assms(12) q j ins filter_already_has)
  show n: "numbers_of ?d = Some ns"
    using csv_numbers_roundtrip [OF assms(13,14)] by (simp add: numbers_of_def e)
  show "unnest_numbers ?db' = Some (taken @ ns)"
    using assms(15) n by (rule unnest_numbers_inserted)
qed

lemma empty_store_facts:
  "donations empty_store = []" "donations_id_seq empty_store = 1" "unnest_numbers empty_store = Some []"
  "state empty_store = Some \<lparr>state_goal = 3500, state_bio = default_bio\<rparr>"
  by (simp_all add: empty_store_def init_def unnest_numbers_def)

lemma sample_donation_recorded:
  assumes "0 < a" and "int4 a" and "ns \<noteq> []" and "list_all int4 ns"
    and "unnest_numbers db = Some taken" and "set ns \<inter> set taken = {}"
  shows "recordDonation now db (sample_body\<lparr>amount := Some (JInt a), numbers := Some (JArr (map JInt ns))\<rparr>)
           = (Created,
              db\<lparr>donations := donations db @
                    [\<lparr>donation_id = donations_id_seq db, donation_amount = a,
                      donation_numbers = join_with CHR '','' (map dec_int ns), donation_method = ''venmo'',
                      donor_name = ''A'', donor_phone = ''1'', donor_address = ''X'',
                      created_at = now\<rparr>],
                  donations_id_seq := donations_id_seq db + 1\<rparr>)"
    and "numbers_of \<lparr>donation_id = donations_id_seq db, donation_amount = a,
                      donation_numbers = join_with CHR '','' (map dec_int ns), donation_method = ''venmo'',
                      donor_name = ''A'', donor_phone = ''1'', donor_address = ''X'',
                      created_at = now\<rparr> = Some ns"
    and "unnest_numbers (db\<lparr>donations := donations db @
                    [\<lparr>donation_id = donations_id_seq db, donation_amount = a,
                      donation_numbers = join_with CHR '','' (map dec_int ns), donation_method = ''venmo'',
                      donor_name = ''A'', donor_phone = ''1'', donor_address = ''X'',
                      created_at = now\<rparr>],
                  donations_id_seq := donations_id_seq db + 1\<rparr>) = Some (taken @ ns)"
proof -
  let ?b = "sample_body\<lparr>amount := Some (JInt a), numbers := Some (JArr (map JInt ns))\<rparr>"
  have h: "amount ?b = Some (JInt a)" "body_method ?b = Some (JStr ''venmo'')"
    "''venmo'' \<in> set methods" "js_truthy (donorName ?b)" "js_truthy (donorPhone ?b)"
    "js_truthy (donorAddress ?b)" "text_param (donorName ?b) = Some ''A''"
    "text_param (donorPhone ?b) = Some ''1''" "text_param (donorAddress ?b) = Some ''X''"
    "numbers ?b = Some (JArr (map JInt ns))"
    by (simp_all add: sample_body_def methods_def text_param_def pg_textin_def)
  note f = recordDonation_fresh_ints [OF h(1) assms(1,2) h(2-10) assms(3-6)]
  show "recordDonation now db ?b
           = (Created,
              db\<lparr>donations := donations db @
                    [\<lparr>donation_id = donations_id_seq db, donation_amount = a,
                      donation_numbers = join_with CHR '','' (map dec_int ns), donation_method = ''venmo'',
                      donor_name = ''A'', donor_phone = ''1'', donor_address = ''X'',
                      created_at = now\<rparr>],
                  donations_id_seq := donations_id_seq db + 1\<rparr>)"
    by (rule f(3))
  show "numbers_of \<lparr>donation_id = donations_id_seq db, donation_amount = a,
                      donation_numbers = join_with CHR '','' (map dec_int ns), donation_method = ''venmo'',
                      donor_name = ''A'', donor_phone = ''1'', donor_address = ''X'',
                      created_at = now\<rparr> = Some ns"
    by (rule f(4))
  show "unnest_numbers (db\<lparr>donations := donations db @
                    [\<lparr>donation_id = donations_id_seq db, donation_amount = a,
                      donation_numbers = join_with CHR '','' (map dec_int ns), donation_method = ''venmo'',
                      donor_name = ''A'', donor_phone = ''1'', donor_address = ''X'',
                      created_at = now\<rparr>],
                  donations_id_seq := donations_id_seq db + 1\<rparr>) = Some (taken @ ns)"
    by (rule f(5))
qed

text \<open>
  Claim C4, as the code has it. Every donation that \<^verbatim>\<open>recordDonation\<close> records is appended as
  one row whose \<^verbatim>\<open>numbers\<close> column is the comma-joined text of the submitted list, which is
  not empty. When the submitted list consists of integers, the column reads back as exactly
  these integers, each within the store's 32-bit range. No line of the handler bounds a number
  by 1 and 80.
\<close>

theorem stored_numbers_as_submitted:
  assumes "recordDonation now db b = (Created, db')"
  shows "\<exists>xs d. numbers b = Some (JArr xs) \<and> xs \<noteq> []
           \<and> donations db' = donations db @ [d]
           \<and> js_join xs = Some (donation_numbers d)
           \<and> (\<forall>ns. xs = map JInt ns \<longrightarrow> numbers_of d = Some ns \<and> ns \<noteq> [] \<and> list_all int4 ns)"
proof -
  from recordDonation_Created [OF assms] obtain xs rows csv where
    xs: "numbers b = Some (JArr xs)" "xs \<noteq> []"
    and q: "conflict_query db xs = Some rows"
    and c: "js_join xs = Some csv"
    and i: "insert_donation now db (amount b) csv (body_method b)
              (donorName b) (donorPhone b) (donorAddress b) = Some db'"
    by blast
  from insert_donation_row [OF i] obtain d where
    d: "donations db' = donations db @ [d]" and j: "donation_numbers d = csv"
    by blast
  have "numbers_of d = Some ns \<and> ns \<noteq> [] \<and> list_all int4 ns" if h: "xs = map JInt ns" for ns
  proof -
    from q h obtain arr where "pg_int_array (map JInt ns) = Some arr"
      by (auto simp: conflict_query_def split: option.splits)
    then have r: "list_all int4 ns" by (rule pg_int_array_ints_Some)
    have ne: "ns \<noteq> []" using xs(2) h by auto
    have "csv = join_with CHR '','' (map js_number_string ns)"
      using c h by (simp add: js_join_ints)
    then show ?thesis using csv_numbers_roundtrip [OF ne r] j r ne by (simp add: numbers_of_def)
  qed
  then show ?thesis using xs d(1) j c by blast
qed

text \<open>The numbers 100 and 0 on the empty ledger.\<close>

theorem stored_numbers_as_submitted_witness:
  "donations (snd (recordDonation 5 empty_store (sample_body\<lparr>numbers := Some (JArr [JInt 100, JInt 0])\<rparr>)))
     = [\<lparr>donation_id = 1, donation_amount = 10, donation_numbers = ''100,0'',
          donation_method = ''venmo'', donor_name = ''A'', donor_phone = ''1'',
          donor_address = ''X'', created_at = 5\<rparr>]
   \<and> numbers_of \<lparr>donation_id = 1, donation_amount = 10, donation_numbers = ''100,0'',
          donation_method = ''venmo'', donor_name = ''A'', donor_phone = ''1'',
          donor_address = ''X'', created_at = 5\<rparr> = Some [100, 0]"
proof -
  let ?d = "\<lparr>donation_id = 1, donation_amount = 10, donation_numbers = ''100,0'',
          donation_method = ''venmo'', donor_name = ''A'', donor_phone = ''1'',
          donor_address = ''X'', created_at = 5\<rparr>"
  let ?b = "sample_body\<lparr>numbers := Some (JArr [JInt 100, JInt 0])\<rparr>"
  have r: "recordDonation 5 empty_store ?b
      = (Created, empty_store\<lparr>donations := [?d], donations_id_seq := 2\<rparr>)"
    by code_simp
  from stored_numbers_as_submitted [OF r] obtain d where
    "donations (empty_store\<lparr>donations := [?d], donations_id_seq := 2\<rparr>) = donations empty_store @ [d]"
    "\<forall>ns. [JInt 100, JInt 0] = map JInt ns \<longrightarrow> numbers_of d = Some ns"
    by auto
  then have "d = ?d" "numbers_of d = Some [100, 0]" by auto
  then show ?thesis using r by simp
qed

text \<open>Claim C4 as stated fails: the request for the numbers 100 and 0 is recorded, and the
  stored record is not within 1 to 80.\<close>

theorem number_out_of_range_counterexample:
  "fst (recordDonation 5 empty_store (sample_body\<lparr>numbers := Some (JArr [JInt 100, JInt 0])\<rparr>)) = Created
   \<and> \<not> list_all numbers_in_range
         (donations (snd (recordDonation 5 empty_store (sample_body\<lparr>numbers := Some (JArr [JInt 100, JInt 0])\<rparr>))))"
  by code_simp

lemma getState_queries:
  assumes "getState db = StateJson s"
  shows "totals_query db = Some (raised s, donationCount s)" "taken_query db = Some (takenNumbers s)"
  using assms by (auto simp: getState_def split: option.splits)

lemma totals_query_sums:
  assumes "totals_query db = Some (r, n)"
  shows "r = sum_list (map donation_amount (donations db))" "n = int (length (donations db))"
  using assms by (auto simp: totals_query_def Let_def split: if_splits)

text \<open>
  Claim C10. Take a request with a valid amount, method and donor fields that the store
  accepts, whose \<^verbatim>\<open>numbers\<close> are integers of the store's range, one of them, \<open>v\<close>, submitted more
  than once, on a store where \<^verbatim>\<open>getState\<close> answers and lists none of these numbers as taken,
  and where the total and the count with the new donation still fit the integer that line 85
  casts them to. The request passes the validation, the conflict query finds nothing (a
  submission does not conflict with itself), one record is appended whose \<^verbatim>\<open>numbers\<close> column
  is the comma-joined list and reads back as the list as submitted, duplicates included, and
  afterwards \<^verbatim>\<open>getState\<close> answers with taken numbers that hold \<open>v\<close> exactly once.
\<close>

theorem duplicate_number_recorded_once:
  assumes "amount b = Some (JInt a)" and "0 < a" and "int4 a"
    and "body_method b = Some (JStr m)" and "m \<in> set methods"
    and "js_truthy (donorName b)" and "js_truthy (donorPhone b)" and "js_truthy (donorAddress b)"
    and "text_param (donorName b) \<noteq> None" and "text_param (donorPhone b) \<noteq> None"
    and "text_param (donorAddress b) \<noteq> None"
    and "numbers b = Some (JArr (map JInt ns))" and "list_all int4 ns"
    and "getState db = StateJson s0" and "set ns \<inter> set (takenNumbers s0) = {}"
    and "int4 (raised s0 + a)" and "int4 (donationCount s0 + 1)"
    and "1 < count_list ns v"
  shows "validate b = None
       \<and> conflict_query db (map JInt ns) = Some []
       \<and> (\<exists>d. recordDonation now db b =
                 (Created, db\<lparr>donations := donations db @ [d],
                              donations_id_seq := donations_id_seq db + 1\<rparr>)
              \<and> donation_numbers d = join_with CHR '','' (map dec_int ns)
              \<and> numbers_of d = Some ns)
       \<and> (\<exists>s. getState (snd (recordDonation now db b)) = StateJson s
              \<and> count_list (takenNumbers s) v = 1
              \<and> raised s = raised s0 + a
              \<and> donationCount s = donationCount s0 + 1)"
proof -
  have v: "v \<in> set ns" using assms(18) by (intro count_list_member) simp
  then have ne: "ns \<noteq> []" by auto
  from assms(9) obtain dn where dn: "text_param (donorName b) = Some dn" by auto
  from assms(10) obtain dp where dp: "text_param (donorPhone b) = Some dp" by auto
  from assms(11) obtain da where da: "text_param (donorAddress b) = Some da" by auto
  note g = getState_queries [OF assms(14)]
  note t = totals_query_sums [OF g(1)]
  from g(2) obtain taken where taken: "unnest_numbers db = Some taken"
    and tn: "takenNumbers s0 = remdups taken"
    by (auto simp: taken_query_def)
  have fresh: "set ns \<inter> set taken = {}" using assms(15) tn by simp
  let ?d = "\<lparr>donation_id = donations_id_seq db, donation_amount = a,
             donation_numbers = join_with CHR '','' (map dec_int ns), donation_method = m,
             donor_name = dn, donor_phone = dp, donor_address = da, created_at = now\<rparr>"
  let ?db' = "db\<lparr>donations := donations db @ [?d], donations_id_seq := donations_id_seq db + 1\<rparr>"
  note f = recordDonation_fresh_ints [OF assms(1-8) dn dp da assms(12) ne assms(13) taken fresh]
  have s: "snd (recordDonation now db b) = ?db'" by (simp add: f(3))
  have q: "taken_query ?db' = Some (remdups (taken @ ns))"
    by (simp add: f(5) taken_query_def)
  have tq: "totals_query ?db' = Some (raised s0 + a, donationCount s0 + 1)"
    using assms(16,17) t by (simp add: totals_query_def Let_def add.commute)
  have c1: "count_list (remdups (taken @ ns)) v = 1"
    using v by (simp add: count_list_remdups)
  have gs: "\<exists>s. getState (snd (recordDonation now db b)) = StateJson s
              \<and> count_list (takenNumbers s) v = 1
              \<and> raised s = raised s0 + a
              \<and> donationCount s = donationCount s0 + 1"
    unfolding s using c1 by (simp add: getState_def tq q)
  have d: "\<exists>d. recordDonation now db b =
                 (Created, db\<lparr>donations := donations db @ [d],
                              donations_id_seq := donations_id_seq db + 1\<rparr>)
              \<and> donation_numbers d = join_with CHR '','' (map dec_int ns)
              \<and> numbers_of d = Some ns"
  proof (intro exI conjI)
    show "recordDonation now db b =
                 (Created, db\<lparr>donations := donations db @ [?d],
                              donations_id_seq := donations_id_seq db + 1\<rparr>)"
      by (rule f(3))
    show "donation_numbers ?d = join_with CHR '','' (map dec_int ns)" by simp
    show "numbers_of ?d = Some ns" by (rule f(4))
  qed
  show ?thesis by (intro conjI) (rule f(1) f(2) d gs)+
qed

text \<open>The numbers 7 and 7 on the empty ledger: one record with the text \<^verbatim>\<open>7,7\<close>, and a state
  that lists 7 once.\<close>

theorem duplicate_number_recorded_once_witness:
  "fst (recordDonation 5 empty_store (sample_body\<lparr>amount := Some (JInt 14), numbers := Some (JArr [JInt 7, JInt 7])\<rparr>))
     = Created
   \<and> map donation_numbers (donations (snd (recordDonation 5 empty_store
        (sample_body\<lparr>amount := Some (JInt 14), numbers := Some (JArr [JInt 7, JInt 7])\<rparr>)))) = [''7,7'']
   \<and> (\<exists>s. getState (snd (recordDonation 5 empty_store
        (sample_body\<lparr>amount := Some (JInt 14), numbers := Some (JArr [JInt 7, JInt 7])\<rparr>))) = StateJson s
          \<and> count_list (takenNumbers s) 7 = 1 \<and> raised s = 14 \<and> donationCount s = 1)
   \<and> getState (snd (recordDonation 5 empty_store
        (sample_body\<lparr>amount := Some (JInt 14), numbers := Some (JArr [JInt 7, JInt 7])\<rparr>)))
     = StateJson \<lparr>raised = 14, donationCount = 1, goal = 3500, bio = default_bio, takenNumbers = [7]\<rparr>"
proof -
  let ?b = "sample_body\<lparr>amount := Some (JInt 14), numbers := Some (JArr [JInt 7, JInt 7])\<rparr>"
  let ?s0 = "\<lparr>raised = 0, donationCount = 0, goal = 3500, bio = default_bio, takenNumbers = []\<rparr>"
  have j: "join_with CHR '','' (map dec_int [7, 7]) = ''7,7''"
    by (simp add: dec_int_def dec_nat.simps digit_chars)
  have g0: "getState empty_store = StateJson ?s0"
    by (simp add: getState_def totals_query_def taken_query_def empty_store_facts int4_def)
  have h: "amount ?b = Some (JInt 14)" "(0::int) < 14" "int4 14" "body_method ?b = Some (JStr ''venmo'')"
    "''venmo'' \<in> set methods" "js_truthy (donorName ?b)" "js_truthy (donorPhone ?b)"
    "js_truthy (donorAddress ?b)" "text_param (donorName ?b) \<noteq> None"
    "text_param (donorPhone ?b) \<noteq> None" "text_param (donorAddress ?b) \<noteq> None"
    "numbers ?b = Some (JArr (map JInt [7, 7]))" "list_all int4 [7, 7]"
    "set [7, 7 :: int] \<inter> set (takenNumbers ?s0) = {}"
    "int4 (raised ?s0 + 14)" "int4 (donationCount ?s0 + 1)" "1 < count_list [7, 7 :: int] 7"
    by (simp_all add: sample_body_def int4_def methods_def text_param_def pg_textin_def)
  note t = duplicate_number_recorded_once [OF h(1-13) g0 h(14-17), of 5]
  from t have "\<exists>d. recordDonation 5 empty_store ?b =
      (Created, empty_store\<lparr>donations := donations empty_store @ [d],
                            donations_id_seq := donations_id_seq empty_store + 1\<rparr>)
      \<and> donation_numbers d = join_with CHR '','' (map dec_int [7, 7]) \<and> numbers_of d = Some [7, 7]"
    by (elim conjE)
  then obtain d where d: "recordDonation 5 empty_store ?b =
      (Created, empty_store\<lparr>donations := donations empty_store @ [d],
                            donations_id_seq := donations_id_seq empty_store + 1\<rparr>)"
    and n: "donation_numbers d = join_with CHR '','' (map dec_int [7, 7])"
    by (elim exE conjE)
  from t have e: "\<exists>s. getState (snd (recordDonation 5 empty_store ?b)) = StateJson s
          \<and> count_list (takenNumbers s) 7 = 1 \<and> raised s = raised ?s0 + 14
          \<and> donationCount s = donationCount ?s0 + 1"
    by (elim conjE)
  have c: "getState (snd (recordDonation 5 empty_store ?b))
     = StateJson \<lparr>raised = 14, donationCount = 1, goal = 3500, bio = default_bio, takenNumbers = [7]\<rparr>"
    by code_simp
  have 1: "fst (recordDonation 5 empty_store ?b) = Created" by (simp add: d)
  have 2: "map donation_numbers (donations (snd (recordDonation 5 empty_store ?b))) = [''7,7'']"
    using n j by (simp add: d empty_store_facts)
  have 3: "\<exists>s. getState (snd (recordDonation 5 empty_store ?b)) = StateJson s
          \<and> count_list (takenNumbers s) 7 = 1 \<and> raised s = 14 \<and> donationCount s = 1"
    using e by simp
  show ?thesis by (intro conjI) (rule 1 2 3 c)+
qed

section \<open>The aggregate state\<close>

lemma sample_store_state:
  "getState sample_store =
     StateJson \<lparr>raised = 10, donationCount = 1, goal = 3500, bio = default_bio, takenNumbers = [3, 7]\<rparr>"
  by code_simp

lemma those_append:
  "those (xs @ ys) =
     (case those xs of None \<Rightarrow> None
      | Some a \<Rightarrow> (case those ys of None \<Rightarrow> None | Some b \<Rightarrow> Some (a @ b)))"
  by (induction xs) (auto split: option.splits)

lemma unnest_rows:
  "those (map pg_int4in (concat (map (\<lambda>d. string_to_array (donation_numbers d)) ds))) =
     (if list_all (\<lambda>d. numbers_of d \<noteq> None) ds
      then Some (concat (map (\<lambda>d. the (numbers_of d)) ds)) else None)"
  by (induction ds) (auto simp: those_append numbers_of_def split: option.splits)

lemma unnest_numbers_rows:
  "unnest_numbers db =
     (if list_all (\<lambda>d. numbers_of d \<noteq> None) (donations db)
      then Some (concat (map (\<lambda>d. the (numbers_of d)) (donations db))) else None)"
  by (simp add: unnest_numbers_def unnest_rows)

lemma numbers_set_rows:
  "list_all (\<lambda>d. numbers_of d \<noteq> None) ds \<Longrightarrow>
     set (concat (map (\<lambda>d. the (numbers_of d)) ds)) = (\<Union>d\<in>set ds. numbers_set d)"
  by (induction ds) (auto simp: numbers_set_def)

text \<open>
  Claim C2, as the code has it. On every store whose \<^verbatim>\<open>numbers\<close> columns read as integers
  and whose total and count fit the \<^verbatim>\<open>integer\<close> that line 85 casts them to, \<^verbatim>\<open>getState\<close>
  answers with \<^verbatim>\<open>raised\<close> the sum of the amounts (0 for no record), \<^verbatim>\<open>donationCount\<close> the
  number of records, \<^verbatim>\<open>takenNumbers\<close> the union of the records' number sets with every
  number once, and \<^verbatim>\<open>goal\<close> and \<^verbatim>\<open>bio\<close> from the settings row, or 3500 and the empty text
  when that row is absent. On every other store a query fails and the answer is 500.
\<close>

theorem getState_aggregates:
  "if list_all (\<lambda>d. numbers_of d \<noteq> None) (donations db)
      \<and> int4 (sum_list (map donation_amount (donations db)))
      \<and> int4 (int (length (donations db)))
   then \<exists>s. getState db = StateJson s
           \<and> raised s = sum_list (map donation_amount (donations db))
           \<and> donationCount s = int (length (donations db))
           \<and> set (takenNumbers s) = (\<Union>d\<in>set (donations db). numbers_set d)
           \<and> distinct (takenNumbers s)
           \<and> (case state db of
                None \<Rightarrow> goal s = 3500 \<and> bio s = []
              | Some r \<Rightarrow> goal s = state_goal r \<and> bio s = state_bio r)
   else getState db = ServerError"
proof (cases "list_all (\<lambda>d. numbers_of d \<noteq> None) (donations db)
      \<and> int4 (sum_list (map donation_amount (donations db)))
      \<and> int4 (int (length (donations db)))")
  case True
  then have t: "totals_query db =
      Some (sum_list (map donation_amount (donations db)), int (length (donations db)))"
    by (simp add: totals_query_def)
  have q: "taken_query db = Some (remdups (concat (map (\<lambda>d. the (numbers_of d)) (donations db))))"
    using True by (simp add: taken_query_def unnest_numbers_rows)
  have n: "set (concat (map (\<lambda>d. the (numbers_of d)) (donations db)))
             = (\<Union>d\<in>set (donations db). numbers_set d)"
    using True by (intro numbers_set_rows) simp
  have "\<exists>s. getState db = StateJson s
           \<and> raised s = sum_list (map donation_amount (donations db))
           \<and> donationCount s = int (length (donations db))
           \<and> set (takenNumbers s) = (\<Union>d\<in>set (donations db). numbers_set d)
           \<and> distinct (takenNumbers s)
           \<and> (case state db of
                None \<Rightarrow> goal s = 3500 \<and> bio s = []
              | Some r \<Rightarrow> goal s = state_goal r \<and> bio s = state_bio r)"
    using n by (simp add: getState_def t q split: option.splits)
  then show ?thesis using True by simp
next
  case False
  then have "totals_query db = None \<or> taken_query db = None"
    by (auto simp: totals_query_def taken_query_def unnest_numbers_rows Let_def)
  then have "getState db = ServerError"
    by (auto simp: getState_def split: option.splits)
  then show ?thesis using False by simp
qed

text \<open>The sample store, a store without records and without the settings row, and a store
  whose only record holds a text that is no list of integers.\<close>

theorem getState_aggregates_witness:
  "getState sample_store =
     StateJson \<lparr>raised = 10, donationCount = 1, goal = 3500, bio = default_bio, takenNumbers = [3, 7]\<rparr>
   \<and> getState \<lparr>donations = [], state = None, donations_id_seq = 1\<rparr> =
     StateJson \<lparr>raised = 0, donationCount = 0, goal = 3500, bio = [], takenNumbers = []\<rparr>
   \<and> getState \<lparr>donations = [\<lparr>donation_id = 1, donation_amount = 10, donation_numbers = ''1,,2'',
          donation_method = ''venmo'', donor_name = ''A'', donor_phone = ''1'',
          donor_address = ''X'', created_at = 5\<rparr>], state = None, donations_id_seq = 2\<rparr> = ServerError"
proof -
  let ?e = "\<lparr>donations = [], state = None, donations_id_seq = 1\<rparr>"
  let ?u = "\<lparr>donations = [\<lparr>donation_id = 1, donation_amount = 10, donation_numbers = ''1,,2'',
          donation_method = ''venmo'', donor_name = ''A'', donor_phone = ''1'',
          donor_address = ''X'', created_at = 5\<rparr>], state = None, donations_id_seq = 2\<rparr>"
  have 2: "list_all (\<lambda>d. numbers_of d \<noteq> None) (donations ?e)
      \<and> int4 (sum_list (map donation_amount (donations ?e)))
      \<and> int4 (int (length (donations ?e)))"
    by (simp add: int4_def)
  have "numbers_of \<lparr>donation_id = 1, donation_amount = 10, donation_numbers = ''1,,2'',
          donation_method = ''venmo'', donor_name = ''A'', donor_phone = ''1'',
          donor_address = ''X'', created_at = 5\<rparr> = None"
    by code_simp
  then have 3: "\<not> (list_all (\<lambda>d. numbers_of d \<noteq> None) (donations ?u)
      \<and> int4 (sum_list (map donation_amount (donations ?u)))
      \<and> int4 (int (length (donations ?u))))"
    by simp
  from 2 getState_aggregates [of ?e]
  obtain s0 where "getState ?e = StateJson s0"
    "raised s0 = 0" "donationCount s0 = 0" "takenNumbers s0 = []" "goal s0 = 3500" "bio s0 = []"
    by auto
  then have a: "getState ?e =
     StateJson \<lparr>raised = 0, donationCount = 0, goal = 3500, bio = [], takenNumbers = []\<rparr>"
    by simp
  from 3 getState_aggregates [of ?u] have b: "getState ?u = ServerError"
    by (simp only: if_False)
  show ?thesis using a b sample_store_state by simp
qed

text \<open>Claim C2 as stated fails on a ledger whose total is beyond the 32-bit range: after two
  accepted donations of 2147483647 each, the cast \<^verbatim>\<open>::int\<close> of the sum fails and the route
  answers 500.\<close>

theorem total_out_of_range_counterexample:
  "map donation_amount (donations full_store) = [2147483647, 2147483647]
   \<and> map numbers_of (donations full_store) = [Some [1], Some [2]]
   \<and> getState full_store = ServerError"
proof -
  have i: "(0::int) < 2147483647" "int4 2147483647" "[1::int] \<noteq> []" "list_all int4 [1]"
    "[2::int] \<noteq> []" "list_all int4 [2]" "set [1::int] \<inter> set [] = {}" "set [2::int] \<inter> set ([] @ [1]) = {}"
    by (simp_all add: int4_def)
  note s1 = sample_donation_recorded [OF i(1,2,3,4) empty_store_facts(3) i(7), of 1]
  note s2 = sample_donation_recorded [OF i(1,2,5,6) s1(3) i(8), of 2]
  have "donations full_store =
      [\<lparr>donation_id = 1, donation_amount = 2147483647,
        donation_numbers = join_with CHR '','' (map dec_int [1]), donation_method = ''venmo'',
        donor_name = ''A'', donor_phone = ''1'', donor_address = ''X'', created_at = 1\<rparr>,
       \<lparr>donation_id = 2, donation_amount = 2147483647,
        donation_numbers = join_with CHR '','' (map dec_int [2]), donation_method = ''venmo'',
        donor_name = ''A'', donor_phone = ''1'', donor_address = ''X'', created_at = 2\<rparr>]"
    using s1(1) s2(1) by (simp add: full_store_def empty_store_facts)
  then show ?thesis
    using s1(2) s2(2)
    by (simp add: empty_store_facts getState_def totals_query_def int4_def)
qed
section \<open>The admin routes\<close>

lemma init_settings_present: "state (init db) \<noteq> None"
  by (simp add: init_def split: option.splits)

lemma recordDonation_settings_kept: "state (snd (recordDonation now db b)) = state db"
  by (auto simp: recordDonation_def insert_donation_def Let_def split: option.splits json.splits)


lemma update_bio_state:
  "update_bio db t = Some db' \<Longrightarrow>
     state db' = map_option (\<lambda>r. r\<lparr>state_bio := t\<rparr>) (state db) \<and> donations db' = donations db"
  by (auto simp: update_bio_def pg_textin_def split: if_splits)

lemma update_goal_state:
  "update_goal db x = Some db' \<Longrightarrow>
     \<exists>g. state db' = map_option (\<lambda>r. r\<lparr>state_goal := g\<rparr>) (state db)"
  by (auto simp: update_goal_def split: option.splits)

lemma updateState_settings_present:
  assumes "state db \<noteq> None"
  shows "state (snd (updateState pw key db b)) \<noteq> None"
proof -
  have 1: "state db1 \<noteq> None" if "update_bio db t = Some db1" for t db1
    using update_bio_state [OF that] assms by auto
  have 2: "state db2 \<noteq> None" if "update_goal db1 x = Some db2" "state db1 \<noteq> None" for x db1 db2
    using update_goal_state [OF that(1)] that(2) by auto
  show ?thesis
    using assms 1 2 by (auto simp: updateState_def split: option.splits)
qed

lemma served_settings_present: "served db \<Longrightarrow> \<exists>r. state db = Some r"
proof (induction rule: served.induct)
  case (started db)
  then show ?case using init_settings_present [of db] by auto
next
  case (donated db now b)
  then show ?case by (simp add: recordDonation_settings_kept)
next
  case (updated db ADMIN_PASSWORD key sb)
  then show ?case using updateState_settings_present [of db ADMIN_PASSWORD key sb] by auto
qed

lemma served_sample_store: "served sample_store"
  unfolding sample_store_def empty_store_def by (intro served.donated served.started)

text \<open>
  Claim C8, as the code has it. \<^verbatim>\<open>isAuthed\<close> compares the \<^verbatim>\<open>x-admin-key\<close> header, read as the
  empty text when the request has none, with the secret, by equality of texts. With a secret
  that is not empty this holds exactly when the header is there and equals the secret. A request
  that fails the comparison gets 401 from both admin routes and leaves the store as it was; one
  that passes never gets 401.
\<close>

theorem admin_key_checked:
  "(isAuthed pw key \<longleftrightarrow> (case key of None \<Rightarrow> [] | Some k \<Rightarrow> k) = pw)
   \<and> (pw \<noteq> [] \<longrightarrow> (isAuthed pw key \<longleftrightarrow> key = Some pw))
   \<and> (\<not> isAuthed pw key \<longrightarrow>
        exportCsv pw key db = Unauthorized \<and> updateState pw key db b = (Unauthorized, db))
   \<and> (isAuthed pw key \<longrightarrow>
        status (exportCsv pw key db) \<noteq> 401 \<and> status (fst (updateState pw key db b)) \<noteq> 401)"
proof -
  have 1: "isAuthed pw key \<longleftrightarrow> (case key of None \<Rightarrow> [] | Some k \<Rightarrow> k) = pw"
    by (simp add: isAuthed_def split: option.splits)
  have 2: "pw \<noteq> [] \<longrightarrow> (isAuthed pw key \<longleftrightarrow> key = Some pw)"
    by (auto simp: isAuthed_def split: option.splits)
  have 3: "\<not> isAuthed pw key \<longrightarrow>
        exportCsv pw key db = Unauthorized \<and> updateState pw key db b = (Unauthorized, db)"
    by (simp add: exportCsv_def updateState_def)
  have 4: "isAuthed pw key \<longrightarrow>
        status (exportCsv pw key db) \<noteq> 401 \<and> status (fst (updateState pw key db b)) \<noteq> 401"
    by (simp add: exportCsv_def updateState_def split: option.splits)
  show ?thesis by (intro conjI; fact)
qed

text \<open>With the default secret: no header, a wrong header, the right header.\<close>

theorem admin_key_checked_witness:
  "\<not> isAuthed ''lilia#2024'' None \<and> \<not> isAuthed ''lilia#2024'' (Some ''lilia'')
   \<and> isAuthed ''lilia#2024'' (Some ''lilia#2024'')
   \<and> exportCsv ''lilia#2024'' None sample_store = Unauthorized
   \<and> updateState ''lilia#2024'' (Some ''lilia'') sample_store \<lparr>body_bio = Some (JStr ''x''), body_goal = None\<rparr>
       = (Unauthorized, sample_store)
   \<and> status (exportCsv ''lilia#2024'' (Some ''lilia#2024'') sample_store) \<noteq> 401"
  using admin_key_checked [of "''lilia#2024''" None sample_store "\<lparr>body_bio = Some (JStr ''x''), body_goal = None\<rparr>"]
    admin_key_checked [of "''lilia#2024''" "Some ''lilia''" sample_store "\<lparr>body_bio = Some (JStr ''x''), body_goal = None\<rparr>"]
    admin_key_checked [of "''lilia#2024''" "Some ''lilia#2024''" sample_store "\<lparr>body_bio = Some (JStr ''x''), body_goal = None\<rparr>"]
  by simp

text \<open>Claim C8 as stated fails for a missing header when the secret is configured empty
  (\<^verbatim>\<open>ADMIN_PASSWORD=\<close> in the environment): line 76 reads the missing header as the empty
  text, the request passes, the export is served and the update is applied.\<close>

theorem empty_secret_counterexample:
  "isAuthed [] None \<and> status (exportCsv [] None sample_store) = 200
   \<and> fst (updateState [] None sample_store \<lparr>body_bio = Some (JStr ''x''), body_goal = None\<rparr>) = OkJson"
  by (simp add: isAuthed_def exportCsv_def updateState_def update_bio_def pg_textin_def)

lemma update_goal_fits:
  assumes "goal_fits x" "state db = Some r"
  shows "\<exists>g. update_goal db (goal_or_default x) = Some (db\<lparr>state := Some (r\<lparr>state_goal := g\<rparr>)\<rparr>)
           \<and> (x = NaN \<longrightarrow> g = 3500) \<and> (x = Num 0 \<longrightarrow> g = 3500)
           \<and> (\<forall>n. x = Num n \<and> n \<noteq> 0 \<longrightarrow> g = n)"
proof (cases x)
  case NaN
  have "int4 3500" by (simp add: int4_def)
  then show ?thesis using NaN assms(2) by (simp add: update_goal_def pg_int4in_number del: number_string.simps)
next
  case (Num n)
  have "int4 3500" by (simp add: int4_def)
  then show ?thesis
    using Num assms by (simp add: update_goal_def pg_int4in_number del: number_string.simps)
next
  case PosInfinity
  then show ?thesis using assms(1) by simp
next
  case NegInfinity
  then show ?thesis using assms(1) by simp
qed

lemma update_goal_unfit: "\<not> goal_fits x \<Longrightarrow> update_goal db (goal_or_default x) = None"
proof (cases x)
  case (Num n)
  assume "\<not> goal_fits x"
  with Num have "\<not> int4 n" by simp
  moreover from this have "n \<noteq> 0" by (auto simp: int4_def)
  ultimately show ?thesis
    using Num by (simp add: update_goal_def pg_int4in_number del: number_string.simps)
qed (simp_all add: update_goal_def pg_int4in_not_finite del: number_string.simps)


lemma update_bio_goal_kept:
  "update_bio db t = Some db' \<Longrightarrow> map_option state_goal (state db') = map_option state_goal (state db)"
  by (auto simp: update_bio_def option.map_comp comp_def split: option.splits)

lemma white_heads: "\<forall>w\<in>set js_white_space. w \<noteq> [] \<and> \<not> is_digit (hd w) \<and> hd w \<noteq> CHR ''-''"
  by (simp add: js_white_space_def is_digit_def)

lemma white_length_plain:
  assumes "is_digit c \<or> c = CHR ''-''"
  shows "white_length (c # cs) = 0"
proof -
  have "\<not> (\<exists>w. w \<in> set js_white_space \<and> take (length w) (c # cs) = w)"
  proof
    assume "\<exists>w. w \<in> set js_white_space \<and> take (length w) (c # cs) = w"
    then obtain w where w: "w \<in> set js_white_space" "take (length w) (c # cs) = w" by blast
    from white_heads w(1) have h: "w \<noteq> []" "\<not> is_digit (hd w)" "hd w \<noteq> CHR ''-''" by auto
    from h(1) obtain a u where u: "w = a # u" by (cases w) auto
    with w(2) have "a = c" by simp
    with h(2,3) assms u show False by auto
  qed
  then have "find (\<lambda>w. take (length w) (c # cs) = w) js_white_space = None"
    unfolding find_None_iff by blast
  then show ?thesis by (simp add: white_length_def)
qed

lemma js_trim_start_plain: "is_digit c \<or> c = CHR ''-'' \<Longrightarrow> js_trim_start (c # cs) = c # cs"
  by (simp add: js_trim_start.simps [of "c # cs"] white_length_plain)

lemma dec_int_head: "\<exists>c cs. dec_int n = c # cs \<and> (is_digit c \<or> c = CHR ''-'')"
proof (cases "n < 0")
  case True
  then show ?thesis by (simp add: dec_int_def)
next
  case False
  obtain c cs where "dec_nat (nat n) = c # cs"
    using dec_nat_nonempty [of "nat n"] by (cases "dec_nat (nat n)") auto
  moreover from this have "is_digit c" using dec_nat_digits [of "nat n"] by simp
  ultimately show ?thesis using False by (simp add: dec_int_def)
qed

lemma lead_int_dec_int: "lead_int (dec_int n) = Some (n, [])"
  by (simp add: dec_int_def lead_int_digits lead_int_minus_digits dec_nat_digits dec_nat_nonempty
      digits_value_dec_nat)

lemma signed_digits_dec_int: "signed_digits (js_trim_start (dec_int n)) = Some (n, [])"
proof -
  obtain c cs where h: "dec_int n = c # cs" "is_digit c \<or> c = CHR ''-''"
    using dec_int_head by blast
  have "\<not> isspace c" using h(2) is_digit_plain by (auto simp: isspace_def)
  then have "lead_int (c # cs) = signed_digits (c # cs)" by (simp add: lead_int_def)
  then show ?thesis
    using lead_int_dec_int [of n] h by (simp add: js_trim_start_plain)
qed

lemma js_parseInt_dec: "js_parseInt (JStr (dec_int n)) = Some (to_number n)"
  by (simp add: js_parseInt_def signed_digits_dec_int)

lemma js_parseInt_int: "\<bar>n\<bar> < 2 ^ 53 \<Longrightarrow> js_parseInt (JInt n) = Some (Num n)"
  by (simp add: js_parseInt_def js_number_string_small signed_digits_dec_int to_number_small)

lemma js_parseInt_no_digits: "js_parseInt JNull = Some NaN" "js_parseInt (JStr []) = Some NaN"
  by code_simp+

text \<open>
  Claim C6, as the code has it. Take an authenticated update with a \<^verbatim>\<open>goal\<close> field, on a
  store the server can be in. When the bio of the request, if it has one, is stored, and
  \<^verbatim>\<open>parseInt(goal, 10)\<close> returns \<^verbatim>\<open>NaN\<close> or an integer of the 32-bit column, the request is
  answered with success and the stored goal is then that integer when it is not 0, and the
  default 3500 when the field does not start with an integer or when the integer is 0. In
  every other case (the bio is not stored, the conversion of the goal to text throws, or the
  number is out of the column's range) the answer is 500 and the stored goal is as before.
  For a goal given as an integer of the column's range, or as its decimal text, \<^verbatim>\<open>parseInt\<close>
  returns that integer; for \<^verbatim>\<open>null\<close> and for the empty text it returns \<^verbatim>\<open>NaN\<close>.
\<close>

theorem goal_parsed_or_default:
  assumes "isAuthed pw key"
    and "body_goal b = Some g"
    and "served db"
  shows "(if (\<forall>v. body_bio b = Some v \<longrightarrow> bio_text v \<noteq> None)
             \<and> (\<exists>x. js_parseInt g = Some x \<and> goal_fits x)
          then \<exists>db' r'. updateState pw key db b = (OkJson, db') \<and> state db' = Some r' \<and>
                 (js_parseInt g = Some NaN \<longrightarrow> state_goal r' = 3500) \<and>
                 (js_parseInt g = Some (Num 0) \<longrightarrow> state_goal r' = 3500) \<and>
                 (\<forall>n. js_parseInt g = Some (Num n) \<and> n \<noteq> 0 \<longrightarrow> state_goal r' = n)
          else fst (updateState pw key db b) = ServerError \<and>
               map_option state_goal (state (snd (updateState pw key db b)))
                 = map_option state_goal (state db))
       \<and> (\<forall>n. (g = JInt n \<or> g = JStr (dec_int n)) \<and> int4 n \<longrightarrow> js_parseInt g = Some (Num n))
       \<and> (g = JNull \<or> g = JStr [] \<longrightarrow> js_parseInt g = Some NaN)"
proof -
  have p1: "\<forall>n. (g = JInt n \<or> g = JStr (dec_int n)) \<and> int4 n \<longrightarrow> js_parseInt g = Some (Num n)"
    using int4_small by (auto simp: js_parseInt_int js_parseInt_dec to_number_small)
  have p2: "g = JNull \<or> g = JStr [] \<longrightarrow> js_parseInt g = Some NaN"
    by (auto simp: js_parseInt_no_digits)
  obtain r where r: "state db = Some r"
    using served_settings_present [OF assms(3)] by blast
  define step1 where "step1 = (case body_bio b of
       None \<Rightarrow> Some db
     | Some v \<Rightarrow> (case js_to_string v of None \<Rightarrow> None | Some t \<Rightarrow> update_bio db t))"
  have u: "updateState pw key db b = (case step1 of
       None \<Rightarrow> (ServerError, db)
     | Some db1 \<Rightarrow> (case (case js_parseInt g of
                           None \<Rightarrow> None
                         | Some x \<Rightarrow> update_goal db1 (goal_or_default x)) of
                      None \<Rightarrow> (ServerError, db1)
                    | Some db2 \<Rightarrow> (OkJson, db2)))"
    using assms(1,2) by (simp add: updateState_def step1_def cong: option.case_cong)
  have s1: "step1 \<noteq> None \<longleftrightarrow> (\<forall>v. body_bio b = Some v \<longrightarrow> bio_text v \<noteq> None)"
    by (auto simp: step1_def bio_text_def update_bio_def split: option.splits)
  have main: "if (\<forall>v. body_bio b = Some v \<longrightarrow> bio_text v \<noteq> None)
             \<and> (\<exists>x. js_parseInt g = Some x \<and> goal_fits x)
          then \<exists>db' r'. updateState pw key db b = (OkJson, db') \<and> state db' = Some r' \<and>
                 (js_parseInt g = Some NaN \<longrightarrow> state_goal r' = 3500) \<and>
                 (js_parseInt g = Some (Num 0) \<longrightarrow> state_goal r' = 3500) \<and>
                 (\<forall>n. js_parseInt g = Some (Num n) \<and> n \<noteq> 0 \<longrightarrow> state_goal r' = n)
          else fst (updateState pw key db b) = ServerError \<and>
               map_option state_goal (state (snd (updateState pw key db b)))
                 = map_option state_goal (state db)"
  proof (cases step1)
    case None
    then show ?thesis using s1 by (simp add: u)
  next
    case (Some db1)
    then have b1: "\<forall>v. body_bio b = Some v \<longrightarrow> bio_text v \<noteq> None" using s1 by simp
    have g1: "map_option state_goal (state db1) = map_option state_goal (state db)"
      using Some by (auto simp: step1_def split: option.splits dest: update_bio_goal_kept)
    then obtain r1 where r1: "state db1 = Some r1" using r by auto
    show ?thesis
    proof (cases "\<exists>x. js_parseInt g = Some x \<and> goal_fits x")
      case True
      then obtain x where x: "js_parseInt g = Some x" "goal_fits x" by blast
      from update_goal_fits [OF x(2) r1] obtain n where
        n: "update_goal db1 (goal_or_default x) = Some (db1\<lparr>state := Some (r1\<lparr>state_goal := n\<rparr>)\<rparr>)"
        and v: "x = NaN \<longrightarrow> n = 3500" "x = Num 0 \<longrightarrow> n = 3500" "\<forall>k. x = Num k \<and> k \<noteq> 0 \<longrightarrow> n = k"
        by blast
      have "updateState pw key db b = (OkJson, db1\<lparr>state := Some (r1\<lparr>state_goal := n\<rparr>)\<rparr>)"
        by (simp add: u Some x(1) n)
      then have "\<exists>db' r'. updateState pw key db b = (OkJson, db') \<and> state db' = Some r' \<and>
                (js_parseInt g = Some NaN \<longrightarrow> state_goal r' = 3500) \<and>
                (js_parseInt g = Some (Num 0) \<longrightarrow> state_goal r' = 3500) \<and>
                (\<forall>n. js_parseInt g = Some (Num n) \<and> n \<noteq> 0 \<longrightarrow> state_goal r' = n)"
        using v x(1) by simp
      then show ?thesis using True b1 by simp
    next
      case False
      have "(case js_parseInt g of None \<Rightarrow> None | Some x \<Rightarrow> update_goal db1 (goal_or_default x)) = None"
        using False by (auto simp: update_goal_unfit split: option.splits)
      then have "updateState pw key db b = (ServerError, db1)"
        by (simp add: u Some)
      then show ?thesis using False g1 by simp
    qed
  qed
  show ?thesis by (intro conjI) (rule main p1 p2)+
qed

text \<open>On the sample store: a goal given as a text that starts with an integer; one that starts
  with the no-break space U+00A0; and an object with a property \<^verbatim>\<open>toString\<close> of its own, for
  which \<^verbatim>\<open>parseInt\<close> throws.\<close>

theorem goal_parsed_or_default_witness:
  "map_option state_goal (state (snd (updateState ''k'' (Some ''k'') sample_store
        \<lparr>body_bio = None, body_goal = Some (JStr ''5000 dollars'')\<rparr>))) = Some 5000
   \<and> map_option state_goal (state (snd (updateState ''k'' (Some ''k'') sample_store
        \<lparr>body_bio = None, body_goal = Some (JStr [CHR 0xC2, CHR 0xA0, CHR ''4'', CHR ''2''])\<rparr>))) = Some 42
   \<and> fst (updateState ''k'' (Some ''k'') sample_store
        \<lparr>body_bio = None, body_goal = Some (JObj True ''{}'')\<rparr>) = ServerError
   \<and> map_option state_goal (state (snd (updateState ''k'' (Some ''k'') sample_store
        \<lparr>body_bio = None, body_goal = Some (JObj True ''{}'')\<rparr>))) = Some 3500"
proof -
  let ?g1 = "JStr ''5000 dollars''"
  let ?g2 = "JStr [CHR 0xC2, CHR 0xA0, CHR ''4'', CHR ''2'']"
  let ?g3 = "JObj True ''{}''"
  have p: "js_parseInt ?g1 = Some (Num 5000)" "js_parseInt ?g2 = Some (Num 42)"
    by code_simp+
  have p3: "js_parseInt ?g3 = None" by (simp add: js_parseInt_def)
  have a: "isAuthed ''k'' (Some ''k'')" by (simp add: isAuthed_def)
  have f: "goal_fits (Num 5000)" "goal_fits (Num 42)"
    by (simp_all add: int4_def)
  have c1: "(\<forall>v. body_bio \<lparr>body_bio = None, body_goal = Some ?g1\<rparr> = Some v \<longrightarrow> bio_text v \<noteq> None)
            \<and> (\<exists>x. js_parseInt ?g1 = Some x \<and> goal_fits x)"
    using p(1) f(1) by simp
  have c2: "(\<forall>v. body_bio \<lparr>body_bio = None, body_goal = Some ?g2\<rparr> = Some v \<longrightarrow> bio_text v \<noteq> None)
            \<and> (\<exists>x. js_parseInt ?g2 = Some x \<and> goal_fits x)"
    using p(2) f(2) by simp
  have c3: "\<not> ((\<forall>v. body_bio \<lparr>body_bio = None, body_goal = Some ?g3\<rparr> = Some v \<longrightarrow> bio_text v \<noteq> None)
            \<and> (\<exists>x. js_parseInt ?g3 = Some x \<and> goal_fits x))"
    using p3 by simp
  note t1 = goal_parsed_or_default [of "''k''" "Some ''k''" "\<lparr>body_bio = None, body_goal = Some ?g1\<rparr>"
      ?g1 sample_store, OF a _ served_sample_store, THEN conjunct1, simplified c1 if_True]
  note t2 = goal_parsed_or_default [of "''k''" "Some ''k''" "\<lparr>body_bio = None, body_goal = Some ?g2\<rparr>"
      ?g2 sample_store, OF a _ served_sample_store, THEN conjunct1, simplified c2 if_True]
  note t3 = goal_parsed_or_default [of "''k''" "Some ''k''" "\<lparr>body_bio = None, body_goal = Some ?g3\<rparr>"
      ?g3 sample_store, OF a _ served_sample_store, THEN conjunct1, simplified c3 if_False]
  have 1: "map_option state_goal (state (snd (updateState ''k'' (Some ''k'') sample_store
        \<lparr>body_bio = None, body_goal = Some ?g1\<rparr>))) = Some 5000"
    using t1 p(1) by auto
  have 2: "map_option state_goal (state (snd (updateState ''k'' (Some ''k'') sample_store
        \<lparr>body_bio = None, body_goal = Some ?g2\<rparr>))) = Some 42"
    using t2 p(2) by auto
  have 3: "fst (updateState ''k'' (Some ''k'') sample_store
        \<lparr>body_bio = None, body_goal = Some ?g3\<rparr>) = ServerError"
    using t3 by simp
  have 4: "map_option state_goal (state (snd (updateState ''k'' (Some ''k'') sample_store
        \<lparr>body_bio = None, body_goal = Some ?g3\<rparr>))) = Some 3500"
    using t3 by (simp add: sample_store_eq)
  show ?thesis by (intro conjI) (rule 1 2 3 4)+
qed

text \<open>Claim C6 as stated fails for the goal 0: it parses as the integer 0, and line 163 stores
  3500, since \<^verbatim>\<open>0 || 3500\<close> is 3500.\<close>

theorem goal_zero_counterexample:
  "js_parseInt (JInt 0) = Some (Num 0)
   \<and> map_option state_goal (state (snd (updateState ''k'' (Some ''k'')
        \<lparr>donations = [], state = Some \<lparr>state_goal = 100, state_bio = []\<rparr>, donations_id_seq = 1\<rparr>
        \<lparr>body_bio = None, body_goal = Some (JInt 0)\<rparr>))) = Some 3500"
  by code_simp







section \<open>The export\<close>

lemma order_by_id_desc_mset: "mset (order_by_id_desc ds) = mset ds"
  by (simp add: order_by_id_desc_def)

lemma order_by_id_desc_sorted: "sorted (rev (map donation_id (order_by_id_desc ds)))"
  by (simp add: order_by_id_desc_def rev_map)

lemma csv_read_plain:
  assumes "\<forall>c\<in>set t. c \<noteq> CHR '','' \<and> c \<noteq> CHR 0x0A" "d = CHR '','' \<or> d = CHR 0x0A"
  shows "csv_read Plain f r rs (t @ d # rest) = after_field d (f @ t) r rs rest"
  using assms by (induction t arbitrary: f) (auto simp: after_field_def)

lemma csv_read_unquoted:
  assumes "\<forall>c\<in>set t. c \<noteq> CHR '','' \<and> c \<noteq> CHR 0x0A \<and> c \<noteq> CHR 0x22" "d = CHR '','' \<or> d = CHR 0x0A"
  shows "csv_read Start [] r rs (t @ d # rest) = after_field d t r rs rest"
proof (cases t)
  case Nil
  then show ?thesis using assms(2) by (auto simp: after_field_def)
next
  case (Cons c u)
  have "csv_read Start [] r rs ((c # u) @ d # rest) = csv_read Plain [c] r rs (u @ d # rest)"
    using assms(1) Cons by simp
  also have "\<dots> = after_field d ([c] @ u) r rs rest"
    using assms Cons by (intro csv_read_plain) auto
  finally show ?thesis using Cons by simp
qed

lemma csv_read_quoted:
  assumes "d = CHR '','' \<or> d = CHR 0x0A"
  shows "csv_read Quoted f r rs
           (concat (map (\<lambda>c. if c = CHR 0x22 then [c, c] else [c]) t) @ CHR 0x22 # d # rest)
         = after_field d (f @ t) r rs rest"
  using assms by (induction t arbitrary: f) (auto simp: after_field_def)

lemma csv_read_field:
  assumes "d = CHR '','' \<or> d = CHR 0x0A"
  shows "csv_read Start [] r rs (csv_field t @ d # rest) = after_field d t r rs rest"
proof (cases "CHR '','' \<in> set t \<or> CHR 0x22 \<in> set t \<or> CHR 0x0A \<in> set t")
  case True
  then have "csv_read Start [] r rs (csv_field t @ d # rest)
      = csv_read Quoted [] r rs
          (concat (map (\<lambda>c. if c = CHR 0x22 then [c, c] else [c]) t) @ CHR 0x22 # d # rest)"
    by (simp add: csv_field_def)
  then show ?thesis using csv_read_quoted [OF assms, of "[]"] by simp
next
  case False
  then have "csv_field t = t" by (simp add: csv_field_def)
  moreover have "\<forall>c\<in>set t. c \<noteq> CHR '','' \<and> c \<noteq> CHR 0x0A \<and> c \<noteq> CHR 0x22"
    using False by auto
  ultimately show ?thesis using csv_read_unquoted [OF _ assms] by simp
qed

lemma csv_read_record:
  "fs \<noteq> [] \<Longrightarrow>
     csv_read Start [] r rs (join_with CHR '','' (map csv_field fs) @ CHR 0x0A # rest)
       = csv_read Start [] [] (rs @ [r @ fs]) rest"
proof (induction fs arbitrary: r)
  case Nil
  then show ?case by simp
next
  case (Cons t fs)
  show ?case
  proof (cases fs)
    case Nil
    then show ?thesis using csv_read_field [of "CHR 0x0A" r rs t rest] by (simp add: after_field_def)
  next
    case (Cons u us)
    have "csv_read Start [] r rs (join_with CHR '','' (map csv_field (t # fs)) @ CHR 0x0A # rest)
        = csv_read Start [] r rs
            (csv_field t @ CHR '','' # (join_with CHR '','' (map csv_field fs) @ CHR 0x0A # rest))"
      using Cons by simp
    also have "\<dots> = csv_read Start [] (r @ [t]) rs
                       (join_with CHR '','' (map csv_field fs) @ CHR 0x0A # rest)"
      using csv_read_field [of "CHR '',''" r rs t] by (simp add: after_field_def)
    also have "\<dots> = csv_read Start [] [] (rs @ [(r @ [t]) @ fs]) rest"
      using Cons by (intro Cons.IH) simp
    finally show ?thesis by simp
  qed
qed

lemma csv_read_records:
  "\<forall>r\<in>set recs. r \<noteq> [] \<Longrightarrow>
     csv_read Start [] [] rs (stringify recs @ rest) = csv_read Start [] [] (rs @ recs) rest"
proof (induction recs arbitrary: rs)
  case Nil
  then show ?case by (simp add: stringify_def)
next
  case (Cons fs recs)
  have "csv_read Start [] [] rs (stringify (fs # recs) @ rest)
      = csv_read Start [] [] rs
          (join_with CHR '','' (map csv_field fs) @ CHR 0x0A # (stringify recs @ rest))"
    by (simp add: stringify_def)
  also have "\<dots> = csv_read Start [] [] (rs @ [fs]) (stringify recs @ rest)"
    using Cons.prems csv_read_record [of fs "[]" rs] by simp
  also have "\<dots> = csv_read Start [] [] ((rs @ [fs]) @ recs) rest"
    using Cons.prems by (intro Cons.IH) simp
  finally show ?case by simp
qed

lemma csv_parse_stringify:
  assumes "\<forall>r\<in>set recs. r \<noteq> []"
  shows "csv_parse (stringify recs) = Some recs"
  using csv_read_records [OF assms, of "[]" "[]"] by (simp add: csv_parse_def)

text \<open>
  Claim C9. With the valid credential the export is a text that reads, as comma-separated
  values, as these records: the line of column names \<^verbatim>\<open>id, amount, numbers, method,
  donor_name, donor_phone, donor_address, created_at\<close>, then exactly one row for each stored
  donation record, the newest key first, each with its eight fields in that column order: the
  key in decimal, the amount as a number, the four texts as stored, and the time stamp as the
  number of its milliseconds. (With no record stored the text is empty and reads as no record.)
\<close>

theorem export_one_row_per_record:
  assumes "isAuthed pw key"
  shows "\<exists>csv rows. exportCsv pw key db = CsvFile csv
           \<and> mset rows = mset (donations db)
           \<and> sorted (rev (map donation_id rows))
           \<and> csv_parse csv =
               Some (if rows = [] then []
                     else [''id'', ''amount'', ''numbers'', ''method'', ''donor_name'',
                           ''donor_phone'', ''donor_address'', ''created_at'']
                          # map (\<lambda>r. [dec_int (donation_id r), js_number_string (donation_amount r),
                                       donation_numbers r, donation_method r, donor_name r,
                                       donor_phone r, donor_address r,
                                       js_number_string (created_at r)]) rows)
           \<and> (\<forall>recs. csv_parse csv = Some recs \<and> donations db \<noteq> [] \<longrightarrow>
                 length recs = length (donations db) + 1 \<and> list_all (\<lambda>r. length r = 8) recs)"
proof -
  let ?rows = "order_by_id_desc (donations db)"
  let ?recs = "if ?rows = [] then []
                     else [''id'', ''amount'', ''numbers'', ''method'', ''donor_name'',
                           ''donor_phone'', ''donor_address'', ''created_at'']
                          # map (\<lambda>r. [dec_int (donation_id r), js_number_string (donation_amount r),
                                       donation_numbers r, donation_method r, donor_name r,
                                       donor_phone r, donor_address r,
                                       js_number_string (created_at r)]) ?rows"
  have c: "csv_records ?rows = ?recs"
    by (simp add: csv_records_def csv_header_def csv_fields_def)
  have e: "exportCsv pw key db = CsvFile (stringify ?recs)"
    using assms by (simp only: exportCsv_def c if_False not_True_eq_False simp_thms)
  have ne: "\<forall>r\<in>set ?recs. r \<noteq> []" by auto
  have p: "csv_parse (stringify ?recs) = Some ?recs"
    using ne by (rule csv_parse_stringify)
  have l: "length ?rows = length (donations db)"
    using order_by_id_desc_mset [of "donations db"] by (metis size_mset)
  have n: "\<forall>recs. csv_parse (stringify ?recs) = Some recs \<and> donations db \<noteq> [] \<longrightarrow>
                 length recs = length (donations db) + 1 \<and> list_all (\<lambda>r. length r = 8) recs"
  proof (intro allI impI)
    fix recs
    assume h: "csv_parse (stringify ?recs) = Some recs \<and> donations db \<noteq> []"
    then have r: "recs = ?recs" using p by simp
    from h l have "?rows \<noteq> []" by auto
    then show "length recs = length (donations db) + 1 \<and> list_all (\<lambda>r. length r = 8) recs"
      using l by (simp add: r list_all_iff)
  qed
  show ?thesis
    by (intro exI [of _ "stringify ?recs"] exI [of _ ?rows] conjI)
      (rule e order_by_id_desc_mset order_by_id_desc_sorted p n)+
qed

text \<open>The export of the sample store: two lines, the numbers field quoted for its comma, and
  what they read as.\<close>

theorem export_one_row_per_record_witness:
  "exportCsv ''k'' (Some ''k'') sample_store =
     CsvFile (''id,amount,numbers,method,donor_name,donor_phone,donor_address,created_at'' @ [CHR 0x0A]
              @ ''1,10,'' @ [CHR 0x22] @ ''3,7'' @ [CHR 0x22] @ '',venmo,A,1,X,1700000000000'' @ [CHR 0x0A])
   \<and> csv_parse (''id,amount,numbers,method,donor_name,donor_phone,donor_address,created_at'' @ [CHR 0x0A]
              @ ''1,10,'' @ [CHR 0x22] @ ''3,7'' @ [CHR 0x22] @ '',venmo,A,1,X,1700000000000'' @ [CHR 0x0A])
     = Some [[''id'', ''amount'', ''numbers'', ''method'', ''donor_name'', ''donor_phone'',
              ''donor_address'', ''created_at''],
             [''1'', ''10'', ''3,7'', ''venmo'', ''A'', ''1'', ''X'', ''1700000000000'']]"
proof -
  let ?d = "\<lparr>donation_id = 1, donation_amount = 10, donation_numbers = ''3,7'',
          donation_method = ''venmo'', donor_name = ''A'', donor_phone = ''1'',
          donor_address = ''X'', created_at = 1700000000000\<rparr>"
  let ?text = "''id,amount,numbers,method,donor_name,donor_phone,donor_address,created_at'' @ [CHR 0x0A]
              @ ''1,10,'' @ [CHR 0x22] @ ''3,7'' @ [CHR 0x22] @ '',venmo,A,1,X,1700000000000'' @ [CHR 0x0A]"
  have a: "isAuthed ''k'' (Some ''k'')" by (simp add: isAuthed_def)
  have d: "donations sample_store = [?d]" by (simp add: sample_store_eq)
  have n: "dec_int 1 = ''1''" "js_number_string 10 = ''10''"
    "js_number_string 1700000000000 = ''1700000000000''"
    by (simp_all add: js_number_string_small dec_int_def dec_nat.simps digit_chars)
  have e: "exportCsv ''k'' (Some ''k'') sample_store = CsvFile ?text"
    by (simp add: exportCsv_def a d order_by_id_desc_def csv_records_def stringify_def
        csv_header_def csv_fields_def csv_field_def n)
  from export_one_row_per_record [OF a, of sample_store] obtain csv rows where
    t: "exportCsv ''k'' (Some ''k'') sample_store = CsvFile csv"
    and m: "mset rows = mset (donations sample_store)"
    and p: "csv_parse csv =
               Some (if rows = [] then []
                     else [''id'', ''amount'', ''numbers'', ''method'', ''donor_name'',
                           ''donor_phone'', ''donor_address'', ''created_at'']
                          # map (\<lambda>r. [dec_int (donation_id r), js_number_string (donation_amount r),
                                       donation_numbers r, donation_method r, donor_name r,
                                       donor_phone r, donor_address r,
                                       js_number_string (created_at r)]) rows)"
    by blast
  from m d have r: "rows = [?d]" by simp
  from t e have "csv = ?text" by simp
  with p r n have "csv_parse ?text
     = Some [[''id'', ''amount'', ''numbers'', ''method'', ''donor_name'', ''donor_phone'',
              ''donor_address'', ''created_at''],
             [''1'', ''10'', ''3,7'', ''venmo'', ''A'', ''1'', ''X'', ''1700000000000'']]"
    by simp
  with e show ?thesis by simp
qed

end
